theory Spec2Isabelle
  imports Main "HOL-Library.AList" "HOL-Library.Char_ord" "HOL-Library.List_Lexorder"
begin

section \<open>Values, exceptions and module namespaces\<close>

text \<open>
  The hook of \<^verbatim>\<open>meTal.py\<close> handles module objects, their attribute dictionaries,
  the strings that name attributes, the list stored under \<^verbatim>\<open>__meTalized__\<close> and opaque
  objects (the functions a module defines, the decorators of the user). Calling an opaque
  object is the business of the interpreter, not of \<^verbatim>\<open>meTal.py\<close>: the call is a
  parameter \<open>call\<close> of the model. \<open>VApp f xs kw\<close> is available as the symbolic result of
  a call for concrete runs.
\<close>

datatype val =
    VNone
  | VStr string
  | VList "val list"
  | VObj string
  | VApp val "val list" "(string \<times> val) list"

datatype exn =
    ImportError string
  | AttributeError string
  | KeyError string
  | TypeError
  | IndexError
  | Raised string

type_synonym kwargs = "(string \<times> val) list"
type_synonym pydict = "(string \<times> val) list"
type_synonym addr = nat
type_synonym caller = "val \<Rightarrow> val list \<Rightarrow> kwargs \<Rightarrow> exn + val"

text \<open>\<^verbatim>\<open>_meTalizers\<close> holds tuples \<^verbatim>\<open>(decorate, dargs, dkwargs)\<close>.\<close>

type_synonym meTalizer = "val \<times> val list \<times> kwargs"

text \<open>
  The interpreter state the mechanism works on: the process-wide list \<^verbatim>\<open>_meTalizers\<close>,
  the module objects (the \<^verbatim>\<open>__dict__\<close> of the object at each address) and the next
  address that \<^verbatim>\<open>types.ModuleType\<close> hands out.
\<close>

record state =
  meTalizers :: "meTalizer list"
  modules :: "addr \<Rightarrow> pydict"
  next_addr :: addr

subsection \<open>Strings: \<^verbatim>\<open>str.lower\<close>\<close>

text \<open>Byte strings of Python 2: \<^verbatim>\<open>lower\<close> maps A..Z to a..z and keeps every other byte.\<close>

definition lower_char :: "char \<Rightarrow> char" where
  "lower_char c =
     (let n = (of_char c :: nat) in if 65 \<le> n \<and> n \<le> 90 then char_of (n + 32) else c)"

definition lower :: "string \<Rightarrow> string" where
  "lower name = map lower_char name"

subsection \<open>Dictionaries and attribute access\<close>

text \<open>
  A \<^verbatim>\<open>__dict__\<close> is an association list read through \<open>map_of\<close>; storing a key replaces
  its binding, deleting a key removes it.
\<close>

definition lookup :: "pydict \<Rightarrow> string \<Rightarrow> val option" where
  "lookup d name = map_of d name"

text \<open>
  A module object has, beside its dictionary, the attributes of the module type. Two of
  them, \<^verbatim>\<open>__dict__\<close> and \<^verbatim>\<open>__class__\<close>, are kept by the type: they are read from the
  type whatever the dictionary holds, and \<^verbatim>\<open>setattr\<close> on them raises \<^verbatim>\<open>TypeError\<close>.
  The other attributes of the type (those of Python 2.7) are found when the dictionary
  has no such key. Their values are opaque objects of the interpreter.
\<close>

definition readonly_attr :: "string \<Rightarrow> bool" where
  "readonly_attr name = (name = ''__dict__'' \<or> name = ''__class__'')"

definition module_type_attrs :: "string list" where
  "module_type_attrs =
     [''__class__'', ''__delattr__'', ''__dict__'', ''__doc__'', ''__format__'',
      ''__getattribute__'', ''__hash__'', ''__init__'', ''__new__'', ''__reduce__'',
      ''__reduce_ex__'', ''__repr__'', ''__setattr__'', ''__sizeof__'', ''__str__'',
      ''__subclasshook__'']"

definition type_attr :: "string \<Rightarrow> val" where
  "type_attr name = VObj (''module.'' @ name)"

text \<open>\<^verbatim>\<open>setattr(module, name, v)\<close>, for a name that is a string.\<close>

definition setattr :: "pydict \<Rightarrow> string \<Rightarrow> val \<Rightarrow> exn + pydict" where
  "setattr d name v =
     (if readonly_attr name then Inl TypeError else Inr (AList.update name v d))"

text \<open>\<^verbatim>\<open>d.pop(name)\<close>: the value and the dictionary without the key, or \<^verbatim>\<open>KeyError\<close>.\<close>

definition dict_pop :: "pydict \<Rightarrow> string \<Rightarrow> exn + (val \<times> pydict)" where
  "dict_pop d name =
     (case lookup d name of
        None \<Rightarrow> Inl (KeyError name)
      | Some v \<Rightarrow> Inr (v, AList.delete name d))"

text \<open>\<^verbatim>\<open>getattr(module, name)\<close>: \<^verbatim>\<open>TypeError\<close> when the name is not a string.\<close>

fun getattr :: "pydict \<Rightarrow> val \<Rightarrow> exn + val" where
  "getattr d (VStr name) =
     (if readonly_attr name then Inr (type_attr name)
      else (case lookup d name of
              Some v \<Rightarrow> Inr v
            | None \<Rightarrow>
               if name \<in> set module_type_attrs then Inr (type_attr name)
               else Inl (AttributeError name)))"
| "getattr d _ = Inl TypeError"

text \<open>\<^verbatim>\<open>hasattr(module, name)\<close>: whether \<^verbatim>\<open>getattr\<close> raises nothing.\<close>

definition hasattr :: "pydict \<Rightarrow> string \<Rightarrow> bool" where
  "hasattr d name = (case getattr d (VStr name) of Inl e \<Rightarrow> False | Inr v \<Rightarrow> True)"

text \<open>\<^verbatim>\<open>dir(module)\<close>: the names of the module's dictionary, sorted.\<close>

definition dir_names :: "pydict \<Rightarrow> string list" where
  "dir_names d = sort (remdups (map fst d))"

text \<open>\<^verbatim>\<open>a.update(b)\<close>: the bindings of \<open>b\<close> replace those of \<open>a\<close>.\<close>

definition dict_update :: "pydict \<Rightarrow> pydict \<Rightarrow> pydict" where
  "dict_update a b = b @ a"

text \<open>
  Iterating a value with \<^verbatim>\<open>for\<close>: a list yields its elements, a string its characters;
  \<^verbatim>\<open>None\<close> and opaque objects are taken not to be iterable.
\<close>

fun iter_val :: "val \<Rightarrow> exn + val list" where
  "iter_val (VList vs) = Inr vs"
| "iter_val (VStr s) = Inr (map (\<lambda>c. VStr [c]) s)"
| "iter_val _ = Inl TypeError"

section \<open>The import hook \<^verbatim>\<open>_meTalizing_import\<close>\<close>

subsection \<open>Renaming (lines 233 to 240)\<close>

text \<open>
  \<^verbatim>\<open>
  for name, normed in meTalized_names:
      if name != normed:
          setattr(module, normed, module.__dict__.pop(name))
  \<close>
  The loop works on the dictionary of the module; on an exception it stops with the
  dictionary as it is then: when \<^verbatim>\<open>setattr\<close> raises, \<^verbatim>\<open>pop\<close> has removed the name.
\<close>

fun rename_loop :: "(string \<times> string) list \<Rightarrow> pydict \<Rightarrow> (exn + unit) \<times> pydict" where
  "rename_loop [] d = (Inr (), d)"
| "rename_loop ((name, normed) # rest) d =
     (if name \<noteq> normed then
        (case dict_pop d name of
           Inl e \<Rightarrow> (Inl e, d)
         | Inr (v, d') \<Rightarrow>
            (case setattr d' normed v of
               Inl e \<Rightarrow> (Inl e, d')
             | Inr d'' \<Rightarrow> rename_loop rest d''))
      else rename_loop rest d)"

text \<open>
  \<^verbatim>\<open>
  if not hasattr(module, '__meTalized__'):
      names = dir(module)
      meTalized_names = [(name, name.lower()) for name in names]
      setattr(module, '__meTalized__', [normed for name, normed in
          meTalized_names if name != normed])
      for name, normed in meTalized_names: ...
  \<close>
\<close>

definition meTalized_names :: "pydict \<Rightarrow> (string \<times> string) list" where
  "meTalized_names d = map (\<lambda>name. (name, lower name)) (dir_names d)"

definition meTalized_list :: "pydict \<Rightarrow> val" where
  "meTalized_list d =
     VList (map (\<lambda>(name, normed). VStr normed)
              (filter (\<lambda>(name, normed). name \<noteq> normed) (meTalized_names d)))"

definition meTalize_dict :: "pydict \<Rightarrow> (exn + unit) \<times> pydict" where
  "meTalize_dict d =
     (if \<not> hasattr d ''__meTalized__'' then
        (case setattr d ''__meTalized__'' (meTalized_list d) of
           Inl e \<Rightarrow> (Inl e, d)
         | Inr d' \<Rightarrow> rename_loop (meTalized_names d) d')
      else (Inr (), d))"

text \<open>The renaming mutates the module object that the builtin import returned.\<close>

definition meTalize_names :: "addr \<Rightarrow> state \<Rightarrow> (exn + unit) \<times> state" where
  "meTalize_names module s =
     (case meTalize_dict (modules s module) of
        (r, d) \<Rightarrow> (r, s\<lparr>modules := (modules s)(module := d)\<rparr>))"

subsection \<open>Decoration (lines 245 to 255)\<close>

text \<open>
  \<^verbatim>\<open>
  if dargs or dkwargs:
      defn = decorate(*dargs,**dkwargs)(defn)
  else:
      defn = decorate(defn)
  \<close>
\<close>

definition decorate_with :: "caller \<Rightarrow> meTalizer \<Rightarrow> val \<Rightarrow> exn + val" where
  "decorate_with call m defn =
     (case m of (decorate, dargs, dkwargs) \<Rightarrow>
        if dargs \<noteq> [] \<or> dkwargs \<noteq> [] then
          (case call decorate dargs dkwargs of
             Inl e \<Rightarrow> Inl e
           | Inr dec \<Rightarrow> call dec [defn] [])
        else call decorate [defn] [])"

text \<open>
  \<^verbatim>\<open>for decorate, dargs, dkwargs in reversed(_meTalizers): ...\<close>; the argument is the
  list in the order of the iteration.
\<close>

fun apply_meTalizers :: "caller \<Rightarrow> meTalizer list \<Rightarrow> val \<Rightarrow> exn + val" where
  "apply_meTalizers call [] defn = Inr defn"
| "apply_meTalizers call (m # rest) defn =
     (case decorate_with call m defn of
        Inl e \<Rightarrow> Inl e
      | Inr defn' \<Rightarrow> apply_meTalizers call rest defn')"

text \<open>
  \<^verbatim>\<open>
  for name in module.__meTalized__:
      defn = getattr(meTalized, name)
      for decorate, dargs, dkwargs in reversed(_meTalizers): ...
      setattr(meTalized, name, defn)
  \<close>
  \<open>setattr\<close> with a name that is not a string cannot be reached: \<open>getattr\<close> has raised.
\<close>

fun decorate_names :: "caller \<Rightarrow> meTalizer list \<Rightarrow> val list \<Rightarrow> pydict \<Rightarrow> (exn + unit) \<times> pydict" where
  "decorate_names call stack [] d = (Inr (), d)"
| "decorate_names call stack (name # rest) d =
     (case getattr d name of
        Inl e \<Rightarrow> (Inl e, d)
      | Inr defn \<Rightarrow>
         (case apply_meTalizers call (rev stack) defn of
            Inl e \<Rightarrow> (Inl e, d)
          | Inr defn' \<Rightarrow>
             (case name of
                VStr n \<Rightarrow>
                  (case setattr d n defn' of
                     Inl e \<Rightarrow> (Inl e, d)
                   | Inr d' \<Rightarrow> decorate_names call stack rest d')
              | _ \<Rightarrow> (Inl TypeError, d))))"

text \<open>
  \<^verbatim>\<open>types.ModuleType(name)\<close>: a new module object whose dictionary holds
  \<^verbatim>\<open>__name__\<close> and \<^verbatim>\<open>__doc__\<close>; the name must be a string.
\<close>

fun new_module_dict :: "val \<Rightarrow> exn + pydict" where
  "new_module_dict (VStr name) = Inr [(''__name__'', VStr name), (''__doc__'', VNone)]"
| "new_module_dict _ = Inl TypeError"

text \<open>
  \<^verbatim>\<open>
  meTalized = types.ModuleType(module.__name__)
  meTalized.__dict__.update(module.__dict__)
  for name in module.__meTalized__: ...
  return meTalized
  \<close>
  The new object takes the address \<open>next_addr\<close>. When the loop raises, the new object
  stays in the store as the loop left it, with no reference to it.
\<close>

definition meTalized_copy :: "caller \<Rightarrow> addr \<Rightarrow> state \<Rightarrow> (exn + addr) \<times> state" where
  "meTalized_copy call module s =
     (case getattr (modules s module) (VStr ''__name__'') of
        Inl e \<Rightarrow> (Inl e, s)
      | Inr nm \<Rightarrow>
         (case new_module_dict nm of
            Inl e \<Rightarrow> (Inl e, s)
          | Inr fresh \<Rightarrow>
             (let meTalized = next_addr s;
                  d0 = dict_update fresh (modules s module);
                  s1 = s\<lparr>modules := (modules s)(meTalized := d0), next_addr := Suc (next_addr s)\<rparr>
              in case getattr (modules s1 module) (VStr ''__meTalized__'') of
                   Inl e \<Rightarrow> (Inl e, s1)
                 | Inr lst \<Rightarrow>
                    (case iter_val lst of
                       Inl e \<Rightarrow> (Inl e, s1)
                     | Inr names \<Rightarrow>
                        (case decorate_names call (meTalizers s1) names d0 of
                           (r, d1) \<Rightarrow>
                             (case r of
                                Inl e \<Rightarrow> (Inl e, s1\<lparr>modules := (modules s1)(meTalized := d1)\<rparr>)
                              | Inr _ \<Rightarrow> (Inr meTalized, s1\<lparr>modules := (modules s1)(meTalized := d1)\<rparr>)))))))"

subsection \<open>The hook\<close>

text \<open>
  \<^verbatim>\<open>_builtin_import\<close> is the interpreter's own import, a parameter: it returns the
  address of a module object or raises, and it may change the state (loading a module).
  \<^verbatim>\<open>
  def _meTalizing_import(*args, **kwargs):
      module = _builtin_import(*args, **kwargs)
      if not hasattr(module, '__meTalized__'): ...
      if not _meTalizers:
          return module
      ...
      return meTalized
  \<close>
\<close>

definition meTalizing_import ::
  "('a \<Rightarrow> state \<Rightarrow> (exn + addr) \<times> state) \<Rightarrow> caller \<Rightarrow> 'a \<Rightarrow> state \<Rightarrow> (exn + addr) \<times> state" where
  "meTalizing_import builtin_import call args s =
     (case builtin_import args s of
        (Inl e, s1) \<Rightarrow> (Inl e, s1)
      | (Inr module, s1) \<Rightarrow>
         (case meTalize_names module s1 of
            (Inl e, s2) \<Rightarrow> (Inl e, s2)
          | (Inr _, s2) \<Rightarrow>
             if meTalizers s2 = [] then (Inr module, s2)
             else meTalized_copy call module s2))"

section \<open>The context manager \<^verbatim>\<open>meTalmanager\<close>\<close>

text \<open>
  \<^verbatim>\<open>
  @contextmanager
  def meTalmanager(decorate, dargs, dkwargs):
      _meTalizers.append((decorate, dargs, dkwargs))
      try:
          yield
      finally:
          _meTalizers.pop()
  \<close>
  Entering runs the generator up to \<^verbatim>\<open>yield\<close>, leaving runs its \<^verbatim>\<open>finally\<close>.
  \<^verbatim>\<open>list.pop\<close> raises \<^verbatim>\<open>IndexError\<close> on an empty list.
\<close>

definition meTalmanager_enter :: "val \<Rightarrow> val list \<Rightarrow> kwargs \<Rightarrow> state \<Rightarrow> (exn + unit) \<times> state" where
  "meTalmanager_enter decorate dargs dkwargs s =
     (Inr (), s\<lparr>meTalizers := meTalizers s @ [(decorate, dargs, dkwargs)]\<rparr>)"

definition meTalmanager_exit :: "state \<Rightarrow> (exn + unit) \<times> state" where
  "meTalmanager_exit s =
     (if meTalizers s = [] then (Inl IndexError, s)
      else (Inr (), s\<lparr>meTalizers := butlast (meTalizers s)\<rparr>))"

text \<open>
  \<^verbatim>\<open>with meTal(decorator, *args, **kwargs): body\<close>, where \<^verbatim>\<open>MeTal.__call__\<close> returns
  \<^verbatim>\<open>meTalmanager(decorator, args, kwargs)\<close>. The body is any computation on the state;
  its exception, if any, is raised again after the \<^verbatim>\<open>finally\<close> clause, unless that
  clause raises itself.
\<close>

definition with_meTal ::
  "val \<Rightarrow> val list \<Rightarrow> kwargs \<Rightarrow> (state \<Rightarrow> (exn + 'r) \<times> state) \<Rightarrow> state \<Rightarrow> (exn + 'r) \<times> state" where
  "with_meTal decorator args kws body s =
     (case meTalmanager_enter decorator args kws s of
        (Inl e, s1) \<Rightarrow> (Inl e, s1)
      | (Inr _, s1) \<Rightarrow>
         (case body s1 of
            (r, s2) \<Rightarrow>
              (case meTalmanager_exit s2 of
                 (Inl e, s3) \<Rightarrow> (Inl e, s3)
               | (Inr _, s3) \<Rightarrow> (r, s3))))"

section \<open>Loading \<^verbatim>\<open>meTal.py\<close>\<close>

text \<open>
  The statements at the top level of \<^verbatim>\<open>meTal.py\<close>, in their order:
  \<^verbatim>\<open>
  import sys
  import types
  import __builtin__ as builtins
  from contextlib import contextmanager
  ...
  builtins.__import__ = _meTalizing_import
  ...
  sys.modules[__name__] = MeTal(__name__)
  \<close>
  The interpreter is a parameter: \<open>avail\<close> tells which modules its import finds. An
  import of a module that is not found raises \<^verbatim>\<open>ImportError\<close>.
\<close>

datatype import_fn = Builtin_import | MeTalizing_import

record interp =
  builtins_import :: import_fn
  meTal_in_sys_modules :: bool

definition import_module :: "(string \<Rightarrow> bool) \<Rightarrow> string \<Rightarrow> exn + unit" where
  "import_module avail name = (if avail name then Inr () else Inl (ImportError name))"

definition load_meTal :: "(string \<Rightarrow> bool) \<Rightarrow> interp \<Rightarrow> (exn + unit) \<times> interp" where
  "load_meTal avail i =
     (case import_module avail ''sys'' of
        Inl e \<Rightarrow> (Inl e, i)
      | Inr _ \<Rightarrow>
         (case import_module avail ''types'' of
            Inl e \<Rightarrow> (Inl e, i)
          | Inr _ \<Rightarrow>
             (case import_module avail ''__builtin__'' of
                Inl e \<Rightarrow> (Inl e, i)
              | Inr _ \<Rightarrow>
                 (case import_module avail ''contextlib'' of
                    Inl e \<Rightarrow> (Inl e, i)
                  | Inr _ \<Rightarrow>
                     (Inr (), i\<lparr>builtins_import := MeTalizing_import,
                                meTal_in_sys_modules := True\<rparr>)))))"

section \<open>Notions of the specification\<close>

text \<open>
  The cased names of a list that share the lowercase form \<open>k\<close>, in the order of the list.
\<close>

definition cased_sources :: "string list \<Rightarrow> string \<Rightarrow> string list" where
  "cased_sources names k = filter (\<lambda>c. c \<noteq> lower c \<and> lower c = k) names"

text \<open>
  Stacked decorators as the specification writes them: with the stack \<open>d1, d2, ..., dn\<close>
  from the outermost scope to the innermost, \<open>f\<close> becomes \<open>d1(d2(...dn(f)...))\<close>.
\<close>

fun stacked :: "caller \<Rightarrow> meTalizer list \<Rightarrow> val \<Rightarrow> exn + val" where
  "stacked call [] f = Inr f"
| "stacked call (d1 # ds) f =
     (case stacked call ds f of
        Inl e \<Rightarrow> Inl e
      | Inr g \<Rightarrow> decorate_with call d1 g)"

text \<open>Wrapping \<open>k\<close> times by the whole stack.\<close>

fun wrap_times :: "caller \<Rightarrow> meTalizer list \<Rightarrow> nat \<Rightarrow> val \<Rightarrow> exn + val" where
  "wrap_times call stack 0 f = Inr f"
| "wrap_times call stack (Suc k) f =
     (case stacked call stack f of
        Inl e \<Rightarrow> Inl e
      | Inr g \<Rightarrow> wrap_times call stack k g)"

text \<open>Running the hook \<open>n\<close> times in a row, whatever each run returns or raises.\<close>

fun import_times ::
  "('a \<Rightarrow> state \<Rightarrow> (exn + addr) \<times> state) \<Rightarrow> caller \<Rightarrow> 'a \<Rightarrow> nat \<Rightarrow> state \<Rightarrow> state" where
  "import_times builtin_import call args 0 s = s"
| "import_times builtin_import call args (Suc n) s =
     import_times builtin_import call args n (snd (meTalizing_import builtin_import call args s))"

section \<open>A concrete interpreter for runs\<close>

text \<open>
  Calls that build the application symbolically and raise nothing.
\<close>

definition sym_call :: caller where
  "sym_call f xs kw = Inr (VApp f xs kw)"

text \<open>A builtin import that finds every module in a cache of loaded modules.\<close>

definition cached_import :: "(string \<times> addr) list \<Rightarrow> string \<Rightarrow> state \<Rightarrow> (exn + addr) \<times> state" where
  "cached_import cache name s =
     (case map_of cache name of
        None \<Rightarrow> (Inl (ImportError name), s)
      | Some a \<Rightarrow> (Inr a, s))"

text \<open>A store with one loaded module, at address 0.\<close>

definition one_module :: "pydict \<Rightarrow> meTalizer list \<Rightarrow> state" where
  "one_module d stack = \<lparr>meTalizers = stack, modules = (\<lambda>_. [])(0 := d), next_addr = 1\<rparr>"

definition simple_py :: pydict where
  "simple_py = [(''__name__'', VStr ''simple''), (''__doc__'', VNone), (''HellO'', VObj ''f'')]"

text \<open>The modules that an interpreter of Python 3 finds among those \<^verbatim>\<open>meTal.py\<close> asks for.\<close>

definition python3_avail :: "string \<Rightarrow> bool" where
  "python3_avail name = (name \<in> set [''sys'', ''types'', ''builtins'', ''contextlib''])"

text \<open>A scope body that raises, and a scope body that opens a scope around it.\<close>

definition raising_body :: "state \<Rightarrow> (exn + unit) \<times> state" where
  "raising_body s = (Inl (Raised ''boom''), s)"

definition nested_body :: "state \<Rightarrow> (exn + unit) \<times> state" where
  "nested_body s = with_meTal (VObj ''decorator2'') [] [] raising_body s"

text \<open>
  Modules whose names collide once they are lowercased: \<^verbatim>\<open>def hello\<close> beside
  \<^verbatim>\<open>def HellO\<close>; \<^verbatim>\<open>run\<close>, \<^verbatim>\<open>RUN\<close> and \<^verbatim>\<open>Run\<close>; \<^verbatim>\<open>HELLO\<close> beside
  \<^verbatim>\<open>HellO\<close>.
\<close>

definition collide_py :: pydict where
  "collide_py = [(''__name__'', VStr ''simple''), (''hello'', VObj ''f1''), (''HellO'', VObj ''f2'')]"

definition shout_py :: pydict where
  "shout_py = [(''__name__'', VStr ''shout''), (''run'', VObj ''r1''), (''RUN'', VObj ''r2''),
               (''Run'', VObj ''r3'')]"

definition twice_py :: pydict where
  "twice_py = [(''__name__'', VStr ''twice''), (''HELLO'', VObj ''f1''), (''HellO'', VObj ''f2'')]"

text \<open>
  A module with two cased names, and calls in which every decorator refuses the function
  \<^verbatim>\<open>g\<close> by raising.
\<close>

definition pair_py :: pydict where
  "pair_py = [(''__name__'', VStr ''pair''), (''Alpha'', VObj ''f''), (''Beta'', VObj ''g'')]"

text \<open>
  A module with the name \<^verbatim>\<open>__DICT__\<close>, whose lowercase form the module type keeps, and
  the module \<^verbatim>\<open>simple\<close> as its first import leaves it.
\<close>

definition odd_py :: pydict where
  "odd_py = [(''__name__'', VStr ''odd''), (''__DICT__'', VObj ''f''), (''zED'', VObj ''g'')]"

definition simple_loaded :: pydict where
  "simple_loaded = [(''__name__'', VStr ''simple''), (''__doc__'', VNone),
                    (''__meTalized__'', VList [VStr ''hello'']), (''hello'', VObj ''f'')]"

definition picky_call :: caller where
  "picky_call f xs kw = (if xs = [VObj ''g''] then Inl (Raised ''picky'') else Inr (VApp f xs kw))"

section \<open>Basic facts\<close>

lemma lower_char_idem: "lower_char (lower_char c) = lower_char c"
  by (simp add: lower_char_def Let_def)

lemma lower_idem: "lower (lower n) = lower n"
  by (simp add: lower_def lower_char_idem)

lemma lower_values:
  "lower ''__name__'' = ''__name__''" "lower ''__doc__'' = ''__doc__''"
  "lower ''hello'' = ''hello''" "lower ''HellO'' = ''hello''" "lower ''HELLO'' = ''hello''"
  "lower ''run'' = ''run''" "lower ''RUN'' = ''run''" "lower ''Run'' = ''run''"
  "lower ''Alpha'' = ''alpha''" "lower ''Beta'' = ''beta''"
  "lower ''__DICT__'' = ''__dict__''" "lower ''zED'' = ''zed''"
  by code_simp+

lemma meTalized_cased: "''__meTalized__'' \<noteq> lower ''__meTalized__''"
  by code_simp

lemma meTalized_not_readonly: "\<not> readonly_attr ''__meTalized__''"
  by (simp add: readonly_attr_def)

lemma setattr_ok: "\<not> readonly_attr k \<Longrightarrow> setattr d k v = Inr (AList.update k v d)"
  by (simp add: setattr_def)

lemma setattr_InrD:
  assumes "setattr d k v = Inr d'"
  shows "\<not> readonly_attr k" and "lookup d' k' = (if k' = k then Some v else lookup d k')"
  using assms by (auto simp: setattr_def lookup_def update_conv' split: if_splits)

lemma lookup_update: "lookup (AList.update k v d) k' = (if k' = k then Some v else lookup d k')"
  by (simp add: lookup_def update_conv')

lemma lookup_delete: "lookup (AList.delete k d) k' = (if k' = k then None else lookup d k')"
  by (simp add: lookup_def delete_conv')

lemma getattr_lookup:
  "lookup d n = Some f \<Longrightarrow> \<not> readonly_attr n \<Longrightarrow> getattr d (VStr n) = Inr f"
  by simp

lemma hasattr_meTalized: "hasattr d ''__meTalized__'' \<longleftrightarrow> lookup d ''__meTalized__'' \<noteq> None"
  by (auto simp: hasattr_def readonly_attr_def module_type_attrs_def split: option.splits)

lemma set_dir_names: "set (dir_names d) = fst ` set d"
  by (simp add: dir_names_def)

lemma distinct_dir_names: "distinct (dir_names d)"
  by (simp add: dir_names_def)

lemma in_dir_names: "k \<in> set (dir_names d) \<longleftrightarrow> lookup d k \<noteq> None"
  by (simp add: set_dir_names lookup_def map_of_eq_None_iff)

lemma cased_sources_Cons:
  "cased_sources (c # cs) k =
     (if c \<noteq> lower c \<and> lower c = k then c # cased_sources cs k else cased_sources cs k)"
  by (auto simp: cased_sources_def)

lemma cased_sources_lowercase: "k \<noteq> lower k \<Longrightarrow> cased_sources ns k = []"
  by (auto simp: cased_sources_def filter_empty_conv lower_idem)

lemma cased_source_props:
  assumes "cased_sources ns k \<noteq> []"
  shows "last (cased_sources ns k) \<in> set ns"
    and "last (cased_sources ns k) \<noteq> lower (last (cased_sources ns k))"
    and "lower (last (cased_sources ns k)) = k"
proof -
  from assms have "last (cased_sources ns k) \<in> set (cased_sources ns k)" by simp
  then show "last (cased_sources ns k) \<in> set ns"
    and "last (cased_sources ns k) \<noteq> lower (last (cased_sources ns k))"
    and "lower (last (cased_sources ns k)) = k"
    by (auto simp: cased_sources_def)
qed

text \<open>
  The loop of the renaming, when no cased name has a lowercase form that the module
  type keeps: it raises nothing, and the dictionary it leaves is known key by key.
\<close>

lemma rename_loop_lookup:
  assumes "distinct ns" and "\<forall>c\<in>set ns. c \<noteq> lower c \<longrightarrow> lookup d c \<noteq> None"
      and "\<forall>c\<in>set ns. c \<noteq> lower c \<longrightarrow> \<not> readonly_attr (lower c)"
  shows "\<exists>d'. rename_loop (map (\<lambda>n. (n, lower n)) ns) d = (Inr (), d') \<and>
           (\<forall>k. lookup d' k =
              (if k \<noteq> lower k \<and> k \<in> set ns then None
               else if cased_sources ns k \<noteq> [] then lookup d (last (cased_sources ns k))
               else lookup d k))"
  using assms
proof (induction ns arbitrary: d)
  case Nil
  then show ?case by (simp add: cased_sources_def)
next
  case (Cons c cs)
  show ?case
  proof (cases "c = lower c")
    case True
    from Cons.prems have "distinct cs" "\<forall>x\<in>set cs. x \<noteq> lower x \<longrightarrow> lookup d x \<noteq> None"
      "\<forall>x\<in>set cs. x \<noteq> lower x \<longrightarrow> \<not> readonly_attr (lower x)"
      by auto
    from Cons.IH[OF this] obtain d' where
      r: "rename_loop (map (\<lambda>n. (n, lower n)) cs) d = (Inr (), d')" and
      l: "\<forall>k. lookup d' k =
              (if k \<noteq> lower k \<and> k \<in> set cs then None
               else if cased_sources cs k \<noteq> [] then lookup d (last (cased_sources cs k))
               else lookup d k)" by blast
    from True r have "rename_loop (map (\<lambda>n. (n, lower n)) (c # cs)) d = (Inr (), d')"
      by simp
    moreover have "\<forall>k. lookup d' k =
              (if k \<noteq> lower k \<and> k \<in> set (c # cs) then None
               else if cased_sources (c # cs) k \<noteq> [] then lookup d (last (cased_sources (c # cs) k))
               else lookup d k)"
      using l True by (auto simp: cased_sources_Cons)
    ultimately show ?thesis by blast
  next
    case False
    from Cons.prems False obtain v where v: "lookup d c = Some v" by auto
    from Cons.prems False have nr: "\<not> readonly_attr (lower c)" by simp
    define d1 where "d1 = AList.update (lower c) v (AList.delete c d)"
    have d1: "\<And>x. lookup d1 x = (if x = lower c then Some v else if x = c then None else lookup d x)"
      by (simp add: d1_def lookup_update lookup_delete)
    have ne: "\<And>x. x \<in> set cs \<Longrightarrow> x \<noteq> lower x \<Longrightarrow> x \<noteq> c \<and> x \<noteq> lower c"
      using Cons.prems(1) lower_idem by (metis distinct.simps(2))
    have "distinct cs" using Cons.prems by simp
    moreover have "\<forall>x\<in>set cs. x \<noteq> lower x \<longrightarrow> lookup d1 x \<noteq> None"
      using Cons.prems(2) ne by (simp add: d1)
    moreover have "\<forall>x\<in>set cs. x \<noteq> lower x \<longrightarrow> \<not> readonly_attr (lower x)"
      using Cons.prems(3) by simp
    ultimately obtain d' where
      r: "rename_loop (map (\<lambda>n. (n, lower n)) cs) d1 = (Inr (), d')" and
      l: "\<forall>k. lookup d' k =
              (if k \<noteq> lower k \<and> k \<in> set cs then None
               else if cased_sources cs k \<noteq> [] then lookup d1 (last (cased_sources cs k))
               else lookup d1 k)" using Cons.IH[of d1] by blast
    have "rename_loop (map (\<lambda>n. (n, lower n)) (c # cs)) d = (Inr (), d')"
      using False v r nr by (simp add: dict_pop_def d1_def setattr_ok)
    moreover have "lookup d' k =
              (if k \<noteq> lower k \<and> k \<in> set (c # cs) then None
               else if cased_sources (c # cs) k \<noteq> [] then lookup d (last (cased_sources (c # cs) k))
               else lookup d k)" for k
    proof (cases "cased_sources cs k = []")
      case True
      then show ?thesis
        using l False v by (auto simp: cased_sources_Cons d1 lower_idem)
    next
      case ne': False
      from cased_source_props[OF ne'] have
        m: "last (cased_sources cs k) \<in> set cs"
           "last (cased_sources cs k) \<noteq> lower (last (cased_sources cs k))"
           "lower (last (cased_sources cs k)) = k" .
      then have "lookup d1 (last (cased_sources cs k)) = lookup d (last (cased_sources cs k))"
        using ne[of "last (cased_sources cs k)"] by (simp add: d1)
      moreover have "k = lower k" using m(3) lower_idem by metis
      ultimately show ?thesis
        using l ne' by (simp add: cased_sources_Cons)
    qed
    ultimately show ?thesis by blast
  qed
qed

text \<open>Whatever the loop does, a key that it neither pops nor stores keeps its binding.\<close>

lemma rename_loop_keeps:
  assumes "\<forall>(name, normed)\<in>set ps. name \<noteq> normed \<longrightarrow> k \<noteq> name \<and> k \<noteq> normed"
  shows "lookup (snd (rename_loop ps d)) k = lookup d k"
  using assms
proof (induction ps arbitrary: d)
  case Nil
  show ?case by simp
next
  case (Cons p ps)
  obtain name normed where p: "p = (name, normed)" by (cases p)
  from Cons.prems have rest: "\<forall>(name, normed)\<in>set ps. name \<noteq> normed \<longrightarrow> k \<noteq> name \<and> k \<noteq> normed"
    by simp
  show ?case
  proof (cases "name = normed")
    case True
    then show ?thesis using Cons.IH[OF rest] p by simp
  next
    case False
    with Cons.prems p have k: "k \<noteq> name" "k \<noteq> normed" by auto
    show ?thesis
    proof (cases "lookup d name")
      case None
      then show ?thesis using p False by (simp add: dict_pop_def)
    next
      case (Some v)
      show ?thesis
      proof (cases "setattr (AList.delete name d) normed v")
        case (Inl e)
        then show ?thesis using p False Some k by (simp add: dict_pop_def lookup_delete)
      next
        case (Inr d'')
        from setattr_InrD(2)[OF Inr, of k] k have "lookup d'' k = lookup d k"
          by (simp add: lookup_delete)
        then show ?thesis using p False Some Inr Cons.IH[OF rest, of d''] by (simp add: dict_pop_def)
      qed
    qed
  qed
qed

lemma rename_loop_dir:
  assumes "\<forall>c\<in>set (dir_names d). c \<noteq> lower c \<longrightarrow> lookup d0 c \<noteq> None"
      and "\<forall>c\<in>set (dir_names d). c \<noteq> lower c \<longrightarrow> \<not> readonly_attr (lower c)"
  shows "\<exists>d'. rename_loop (meTalized_names d) d0 = (Inr (), d') \<and>
           (\<forall>k. lookup d' k =
              (if k \<noteq> lower k \<and> k \<in> set (dir_names d) then None
               else if cased_sources (dir_names d) k \<noteq> [] then lookup d0 (last (cased_sources (dir_names d) k))
               else lookup d0 k))"
  unfolding meTalized_names_def
  using rename_loop_lookup [OF distinct_dir_names assms] .

lemma meTalize_dict_first:
  assumes "\<not> hasattr d ''__meTalized__''"
      and "\<forall>c\<in>set (dir_names d). c \<noteq> lower c \<longrightarrow> \<not> readonly_attr (lower c)"
  shows "\<exists>d'. meTalize_dict d = (Inr (), d') \<and>
           lookup d' ''__meTalized__'' = Some (meTalized_list d) \<and>
           (\<forall>k. k \<noteq> ''__meTalized__'' \<longrightarrow> lookup d' k =
              (if k \<noteq> lower k \<and> lookup d k \<noteq> None then None
               else if cased_sources (dir_names d) k \<noteq> [] then lookup d (last (cased_sources (dir_names d) k))
               else lookup d k))"
proof -
  let ?M = "''__meTalized__''"
  let ?d0 = "AList.update ?M (meTalized_list d) d"
  have s0: "setattr d ?M (meTalized_list d) = Inr ?d0"
    by (simp add: setattr_ok meTalized_not_readonly)
  have notin: "?M \<notin> set (dir_names d)"
    using assms(1) by (simp add: in_dir_names hasattr_meTalized)
  have "\<forall>c\<in>set (dir_names d). c \<noteq> lower c \<longrightarrow> lookup ?d0 c \<noteq> None"
    by (auto simp: lookup_update in_dir_names)
  from rename_loop_dir [OF this assms(2)] obtain d' where
    r: "rename_loop (meTalized_names d) ?d0 = (Inr (), d')" and
    l: "\<And>k. lookup d' k =
              (if k \<noteq> lower k \<and> k \<in> set (dir_names d) then None
               else if cased_sources (dir_names d) k \<noteq> [] then lookup ?d0 (last (cased_sources (dir_names d) k))
               else lookup ?d0 k)" by blast
  have m: "meTalize_dict d = (Inr (), d')"
    using assms(1) r s0 by (simp add: meTalize_dict_def)
  have src: "cased_sources (dir_names d) ?M = []"
    using meTalized_cased by (rule cased_sources_lowercase)
  have a: "lookup d' ?M = Some (meTalized_list d)"
    using notin src by (simp add: l lookup_update)
  have b: "lookup d' k =
              (if k \<noteq> lower k \<and> lookup d k \<noteq> None then None
               else if cased_sources (dir_names d) k \<noteq> [] then lookup d (last (cased_sources (dir_names d) k))
               else lookup d k)" if "k \<noteq> ?M" for k
  proof (cases "cased_sources (dir_names d) k = []")
    case True
    then show ?thesis using that by (simp add: l lookup_update in_dir_names)
  next
    case False
    from cased_source_props(1)[OF False] notin
    have "last (cased_sources (dir_names d) k) \<noteq> ?M" by metis
    then show ?thesis using that False by (simp add: l lookup_update in_dir_names)
  qed
  show ?thesis using m a b by blast
qed

lemma meTalize_dict_done: "hasattr d ''__meTalized__'' \<Longrightarrow> meTalize_dict d = (Inr (), d)"
  by (simp add: meTalize_dict_def)

text \<open>
  \<^verbatim>\<open>__meTalized__\<close> is set before the loop and the loop never touches it: the module
  carries it after the renaming, also when the loop raised.
\<close>

lemma meTalize_dict_hasattr: "hasattr (snd (meTalize_dict d)) ''__meTalized__''"
proof (cases "hasattr d ''__meTalized__''")
  case True
  then show ?thesis by (simp add: meTalize_dict_done)
next
  case False
  let ?M = "''__meTalized__''"
  let ?d0 = "AList.update ?M (meTalized_list d) d"
  have s0: "setattr d ?M (meTalized_list d) = Inr ?d0"
    by (simp add: setattr_ok meTalized_not_readonly)
  have notin: "?M \<notin> set (dir_names d)"
    using False by (simp add: in_dir_names hasattr_meTalized)
  have "\<forall>(name, normed)\<in>set (meTalized_names d). name \<noteq> normed \<longrightarrow> ?M \<noteq> name \<and> ?M \<noteq> normed"
    using notin meTalized_cased lower_idem
    by (auto simp: meTalized_names_def)
  from rename_loop_keeps[OF this, of ?d0]
  have "lookup (snd (rename_loop (meTalized_names d) ?d0)) ?M = Some (meTalized_list d)"
    by (simp add: lookup_update)
  then show ?thesis using False s0 by (simp add: meTalize_dict_def hasattr_meTalized)
qed

lemma meTalize_dict_idem: "meTalize_dict (snd (meTalize_dict d)) = (Inr (), snd (meTalize_dict d))"
  using meTalize_dict_hasattr by (rule meTalize_dict_done)

lemma meTalize_names_eq:
  "meTalize_names a s =
     (fst (meTalize_dict (modules s a)),
      s\<lparr>modules := (modules s)(a := snd (meTalize_dict (modules s a)))\<rparr>)"
  by (cases "meTalize_dict (modules s a)") (simp add: meTalize_names_def)

lemma apply_meTalizers_append:
  "apply_meTalizers call (xs @ ys) f =
     (case apply_meTalizers call xs f of Inl e \<Rightarrow> Inl e | Inr g \<Rightarrow> apply_meTalizers call ys g)"
  by (induction xs arbitrary: f) (auto split: sum.splits)

text \<open>The loop over the reversed stack is the stacking of the specification.\<close>

lemma apply_rev_stacked: "apply_meTalizers call (rev ms) f = stacked call ms f"
  by (induction ms) (auto simp: apply_meTalizers_append split: sum.splits)

lemma stacked_append:
  "stacked call (xs @ ys) f =
     (case stacked call ys f of Inl e \<Rightarrow> Inl e | Inr g \<Rightarrow> stacked call xs g)"
  by (induction xs) (auto split: sum.splits)

lemma lookup_dict_update:
  "lookup (dict_update a b) k = (case lookup b k of Some v \<Rightarrow> Some v | None \<Rightarrow> lookup a k)"
  by (simp add: lookup_def dict_update_def map_add_def split: option.splits)

lemma lookup_dict_update_Some:
  "lookup d n = Some f \<Longrightarrow> lookup (dict_update fr d) n = Some f"
  by (simp add: lookup_dict_update)

text \<open>
  The loop of the decoration, when it raises nothing: a name that is bound before the
  loop is bound after it to its value wrapped by the stack once for each occurrence of
  the name in the list, and a name that the list does not hold keeps its binding.
\<close>

lemma decorate_names_lookup:
  assumes "decorate_names call stack names d = (Inr (), d')"
  shows "(\<forall>n. VStr n \<notin> set names \<longrightarrow> lookup d' n = lookup d n) \<and>
         (\<forall>n f. lookup d n = Some f \<longrightarrow>
            (\<exists>g. wrap_times call stack (count_list names (VStr n)) f = Inr g \<and>
                 lookup d' n = Some g))"
  using assms
proof (induction names arbitrary: d)
  case Nil
  then show ?case by simp
next
  case (Cons name rest)
  from Cons.prems obtain m where nm: "name = VStr m"
    by (cases name) (auto split: sum.splits if_splits option.splits)
  from Cons.prems nm obtain f0 g0 d1 where
    ga: "getattr d (VStr m) = Inr f0" and
    g0: "stacked call stack f0 = Inr g0" and
    sa: "setattr d m g0 = Inr d1" and
    r: "decorate_names call stack rest d1 = (Inr (), d')"
    by (auto simp: apply_rev_stacked split: sum.splits)
  note d1 = setattr_InrD[OF sa]
  from Cons.IH[OF r] have
    ih1: "\<And>n. VStr n \<notin> set rest \<Longrightarrow> lookup d' n = lookup d1 n" and
    ih2: "\<And>n f. lookup d1 n = Some f \<Longrightarrow>
            \<exists>g. wrap_times call stack (count_list rest (VStr n)) f = Inr g \<and> lookup d' n = Some g"
    by blast+
  have a: "lookup d' n = lookup d n" if "VStr n \<notin> set (name # rest)" for n
    using that ih1[of n] nm by (simp add: d1(2))
  have b: "\<exists>g. wrap_times call stack (count_list (name # rest) (VStr n)) f = Inr g \<and>
                lookup d' n = Some g" if f: "lookup d n = Some f" for n f
  proof (cases "n = m")
    case True
    have "f0 = f" using ga f True d1(1) by simp
    moreover have "lookup d1 n = Some g0" using True by (simp add: d1(2))
    from ih2[OF this] obtain g where
      "wrap_times call stack (count_list rest (VStr n)) g0 = Inr g" "lookup d' n = Some g"
      by blast
    ultimately show ?thesis using True nm g0 by simp
  next
    case False
    then have "lookup d1 n = Some f" using f by (simp add: d1(2))
    from ih2[OF this] show ?thesis using False nm by simp
  qed
  show ?case using a b by blast
qed

lemma getattr_name_lookup:
  "getattr d (VStr ''__name__'') = Inr v \<longleftrightarrow> lookup d ''__name__'' = Some v"
  by (auto simp: readonly_attr_def module_type_attrs_def split: option.splits)

lemma getattr_meTalized_lookup:
  "getattr d (VStr ''__meTalized__'') = Inr v \<longleftrightarrow> lookup d ''__meTalized__'' = Some v"
  by (auto simp: readonly_attr_def module_type_attrs_def split: option.splits)

lemma meTalized_copy_frame:
  assumes "meTalized_copy call a s = (r, s')"
  shows "meTalizers s' = meTalizers s \<and> next_addr s \<le> next_addr s' \<and>
         (\<forall>x. x \<noteq> next_addr s \<longrightarrow> modules s' x = modules s x)"
  using assms
  by (auto simp: meTalized_copy_def Let_def split: sum.splits prod.splits)

lemma meTalized_copy_result:
  assumes "meTalized_copy call a s = (Inr b, s')" and "a \<noteq> next_addr s"
  shows "b = next_addr s \<and> next_addr s' = Suc (next_addr s) \<and>
         (\<exists>nm lst names.
            lookup (modules s a) ''__name__'' = Some (VStr nm) \<and>
            lookup (modules s a) ''__meTalized__'' = Some lst \<and>
            iter_val lst = Inr names \<and>
            decorate_names call (meTalizers s) names
              (dict_update [(''__name__'', VStr nm), (''__doc__'', VNone)] (modules s a)) =
              (Inr (), modules s' b))"
proof -
  from assms(1) obtain v where v: "getattr (modules s a) (VStr ''__name__'') = Inr v"
    by (cases "getattr (modules s a) (VStr ''__name__'')")
       (simp_all add: meTalized_copy_def del: getattr.simps)
  from assms(1) v obtain fresh where fr: "new_module_dict v = Inr fresh"
    by (cases "new_module_dict v") (simp_all add: meTalized_copy_def del: getattr.simps)
  then obtain nm where nm: "v = VStr nm" "fresh = [(''__name__'', VStr nm), (''__doc__'', VNone)]"
    by (cases v) auto
  from v nm have l1: "lookup (modules s a) ''__name__'' = Some (VStr nm)"
    by (simp only: getattr_name_lookup)
  from assms v fr obtain lst where lst: "getattr (modules s a) (VStr ''__meTalized__'') = Inr lst"
    by (cases "getattr (modules s a) (VStr ''__meTalized__'')")
       (simp_all add: meTalized_copy_def Let_def del: getattr.simps)
  then have l2: "lookup (modules s a) ''__meTalized__'' = Some lst"
    by (simp only: getattr_meTalized_lookup)
  from assms v fr lst obtain names where names: "iter_val lst = Inr names"
    by (cases "iter_val lst") (simp_all add: meTalized_copy_def Let_def del: getattr.simps)
  obtain r d1 where dn: "decorate_names call (meTalizers s) names
              (dict_update fresh (modules s a)) = (r, d1)"
    by (cases "decorate_names call (meTalizers s) names (dict_update fresh (modules s a))")
  from assms v fr lst names dn have
    "b = next_addr s \<and> next_addr s' = Suc (next_addr s) \<and> r = Inr () \<and> modules s' b = d1"
    by (cases r) (auto simp: meTalized_copy_def Let_def simp del: getattr.simps)
  then show ?thesis using l1 l2 names dn nm by auto
qed

text \<open>The hook, once the builtin import has returned the module at \<open>a\<close>.\<close>

lemma hook_unfold:
  assumes "builtin_import args s = (Inr a, s1)"
  shows "meTalizing_import builtin_import call args s =
           (case fst (meTalize_dict (modules s1 a)) of
              Inl e \<Rightarrow> (Inl e, snd (meTalize_names a s1))
            | Inr u \<Rightarrow>
               if meTalizers s1 = [] then (Inr a, snd (meTalize_names a s1))
               else meTalized_copy call a (snd (meTalize_names a s1)))"
  using assms by (simp add: meTalizing_import_def meTalize_names_eq split: sum.splits)

lemma hook_raise:
  assumes "builtin_import args s = (Inl e, s1)"
  shows "meTalizing_import builtin_import call args s = (Inl e, s1)"
  using assms by (simp add: meTalizing_import_def)

lemma hook_rename_raise:
  assumes "builtin_import args s = (Inr a, s1)" and "fst (meTalize_dict (modules s1 a)) = Inl e"
  shows "meTalizing_import builtin_import call args s =
           (Inl e, s1\<lparr>modules := (modules s1)(a := snd (meTalize_dict (modules s1 a)))\<rparr>)"
  using assms by (simp add: hook_unfold meTalize_names_eq)

text \<open>
  Whatever the hook returns or raises: the module at \<open>a\<close> is left as the renaming leaves
  it, the stack is as it was, and no other object that exists is touched.
\<close>

lemma hook_frame:
  assumes "builtin_import args s = (Inr a, s1)" and "a < next_addr s1"
      and "meTalizing_import builtin_import call args s = (r, s')"
  shows "modules s' a = snd (meTalize_dict (modules s1 a)) \<and>
         meTalizers s' = meTalizers s1 \<and> next_addr s1 \<le> next_addr s' \<and>
         (\<forall>x. x < next_addr s1 \<longrightarrow> x \<noteq> a \<longrightarrow> modules s' x = modules s1 x)"
proof (cases "fst (meTalize_dict (modules s1 a))")
  case (Inl e)
  then show ?thesis using assms by (auto simp: hook_rename_raise)
next
  case (Inr u)
  show ?thesis
  proof (cases "meTalizers s1 = []")
    case True
    then show ?thesis using assms Inr by (auto simp: hook_unfold meTalize_names_eq)
  next
    case False
    let ?s2 = "snd (meTalize_names a s1)"
    from False assms Inr have c: "meTalized_copy call a ?s2 = (r, s')"
      by (simp add: hook_unfold)
    from meTalized_copy_frame[OF c] assms(2) show ?thesis
      by (auto simp: meTalize_names_eq)
  qed
qed

lemma hook_returns_renamed:
  assumes "builtin_import args s = (Inr a, s1)"
      and "meTalizing_import builtin_import call args s = (Inr b, s')"
  shows "fst (meTalize_dict (modules s1 a)) = Inr ()"
  using assms by (cases "fst (meTalize_dict (modules s1 a))") (auto simp: hook_unfold)

lemma hook_empty_stack:
  assumes "builtin_import args s = (Inr a, s1)" and "meTalizers s1 = []"
      and "fst (meTalize_dict (modules s1 a)) = Inr ()"
  shows "meTalizing_import builtin_import call args s =
           (Inr a, s1\<lparr>modules := (modules s1)(a := snd (meTalize_dict (modules s1 a)))\<rparr>)"
  using assms by (simp add: hook_unfold meTalize_names_eq)

lemma hook_decorated:
  assumes "builtin_import args s = (Inr a, s1)" and "a < next_addr s1"
      and "meTalizers s1 \<noteq> []"
      and "meTalizing_import builtin_import call args s = (Inr b, s')"
  shows "b = next_addr s1 \<and> next_addr s' = Suc (next_addr s1) \<and>
         (\<exists>nm lst names.
            lookup (modules s' a) ''__name__'' = Some (VStr nm) \<and>
            lookup (modules s' a) ''__meTalized__'' = Some lst \<and>
            iter_val lst = Inr names \<and>
            decorate_names call (meTalizers s1) names
              (dict_update [(''__name__'', VStr nm), (''__doc__'', VNone)] (modules s' a)) =
              (Inr (), modules s' b))"
proof -
  let ?s2 = "snd (meTalize_names a s1)"
  from hook_returns_renamed[OF assms(1,4)] assms have c: "meTalized_copy call a ?s2 = (Inr b, s')"
    by (simp add: hook_unfold)
  have ne: "a \<noteq> next_addr ?s2" using assms(2) by (simp add: meTalize_names_eq)
  have fr: "modules s' a = modules ?s2 a"
    using meTalized_copy_frame[OF c] ne by simp
  have st: "meTalizers ?s2 = meTalizers s1" "next_addr ?s2 = next_addr s1"
    by (simp_all add: meTalize_names_eq)
  from meTalized_copy_result[OF c ne] show ?thesis
    unfolding fr st by blast
qed

text \<open>
  What a returning hook binds in the module it returns, in terms of the loaded module:
  a bound name that the list holds \<open>k\<close> times has its value wrapped \<open>k\<close> times, and a
  name that the list does not hold is bound as in the loaded module, or as in a new
  module (\<^verbatim>\<open>__doc__\<close> is \<^verbatim>\<open>None\<close>) when the loaded module does not bind it.
\<close>

lemma hook_decorated_lookup:
  assumes "builtin_import args s = (Inr a, s1)" and "a < next_addr s1"
      and "meTalizers s1 \<noteq> []"
      and "meTalizing_import builtin_import call args s = (Inr b, s')"
      and "lookup (modules s' a) ''__meTalized__'' = Some lst" and "iter_val lst = Inr names"
  shows "(\<forall>n. VStr n \<notin> set names \<longrightarrow>
            lookup (modules s' b) n =
              (case lookup (modules s' a) n of
                 Some v \<Rightarrow> Some v
               | None \<Rightarrow> if n = ''__doc__'' then Some VNone else None)) \<and>
         (\<forall>n f. lookup (modules s' a) n = Some f \<longrightarrow>
            (\<exists>g. wrap_times call (meTalizers s1) (count_list names (VStr n)) f = Inr g \<and>
                 lookup (modules s' b) n = Some g))"
proof -
  from hook_decorated[OF assms(1-4)] obtain nm lst' names' where
    nm: "lookup (modules s' a) ''__name__'' = Some (VStr nm)" and
    l: "lookup (modules s' a) ''__meTalized__'' = Some lst'" and
    i: "iter_val lst' = Inr names'" and
    d: "decorate_names call (meTalizers s1) names'
              (dict_update [(''__name__'', VStr nm), (''__doc__'', VNone)] (modules s' a)) =
              (Inr (), modules s' b)" by blast
  from l i assms(5,6) have eq: "names' = names" by simp
  let ?d0 = "dict_update [(''__name__'', VStr nm), (''__doc__'', VNone)] (modules s' a)"
  have d0: "lookup ?d0 n =
              (case lookup (modules s' a) n of
                 Some v \<Rightarrow> Some v
               | None \<Rightarrow> if n = ''__doc__'' then Some VNone else None)" for n
  proof (cases "lookup (modules s' a) n")
    case None
    with nm have "n \<noteq> ''__name__''" by auto
    then have "lookup [(''__name__'', VStr nm), (''__doc__'', VNone)] n =
                 (if n = ''__doc__'' then Some VNone else None)"
      by (simp add: lookup_def)
    with None show ?thesis by (simp add: lookup_dict_update)
  next
    case (Some v)
    then show ?thesis by (simp add: lookup_dict_update)
  qed
  from decorate_names_lookup[OF d] eq have
    1: "\<And>n. VStr n \<notin> set names \<Longrightarrow> lookup (modules s' b) n = lookup ?d0 n" and
    2: "\<And>n f. lookup ?d0 n = Some f \<Longrightarrow>
          \<exists>g. wrap_times call (meTalizers s1) (count_list names (VStr n)) f = Inr g \<and>
              lookup (modules s' b) n = Some g"
    by blast+
  have "\<exists>g. wrap_times call (meTalizers s1) (count_list names (VStr n)) f = Inr g \<and>
              lookup (modules s' b) n = Some g" if "lookup (modules s' a) n = Some f" for n f
    using 2[of n f] that by (simp add: lookup_dict_update)
  then show ?thesis using 1 d0 by simp
qed

section \<open>Loading under Python 3\<close>

text \<open>
  C10. \<^verbatim>\<open>meTal.py\<close> cannot be loaded by an interpreter that has no module
  \<^verbatim>\<open>__builtin__\<close>, as Python 3 has none: its top level raises \<^verbatim>\<open>ImportError\<close>, and
  it does so before the hook is installed, so \<^verbatim>\<open>builtins.__import__\<close> is not replaced
  (the interpreter is left as it was).
\<close>

theorem meTal_load_fails_without_builtin:
  assumes "\<not> avail ''__builtin__''"
  shows "\<exists>name. load_meTal avail i = (Inl (ImportError name), i) \<and>
           builtins_import (snd (load_meTal avail i)) = builtins_import i"
  using assms by (simp add: load_meTal_def import_module_def)

theorem meTal_load_fails_without_builtin_witness:
  "\<not> python3_avail ''__builtin__'' \<and>
   load_meTal python3_avail \<lparr>builtins_import = Builtin_import, meTal_in_sys_modules = False\<rparr> =
     (Inl (ImportError ''__builtin__''),
      \<lparr>builtins_import = Builtin_import, meTal_in_sys_modules = False\<rparr>)"
proof -
  let ?i = "\<lparr>builtins_import = Builtin_import, meTal_in_sys_modules = False\<rparr>"
  have h: "\<not> python3_avail ''__builtin__''"
    by (simp add: python3_avail_def)
  have "\<exists>name. load_meTal python3_avail ?i = (Inl (ImportError name), ?i) \<and>
          builtins_import (snd (load_meTal python3_avail ?i)) = builtins_import ?i"
    using h by (rule meTal_load_fails_without_builtin)
  moreover have "fst (load_meTal python3_avail ?i) = Inl (ImportError ''__builtin__'')"
    by (simp add: load_meTal_def import_module_def python3_avail_def)
  ultimately show ?thesis using h by auto
qed

text \<open>With the four modules at hand, as under Python 2, the load installs the hook.\<close>

lemma load_meTal_installs:
  assumes "avail ''sys''" "avail ''types''" "avail ''__builtin__''" "avail ''contextlib''"
  shows "load_meTal avail i =
           (Inr (), i\<lparr>builtins_import := MeTalizing_import, meTal_in_sys_modules := True\<rparr>)"
  using assms by (simp add: load_meTal_def import_module_def)

section \<open>Stack discipline of the scopes\<close>

text \<open>
  C3. Entering a scope appends exactly one tuple \<open>(decorator, args, kwargs)\<close> to the
  stack; leaving it removes the last element, also when the body raised (\<open>r\<close> is any
  result of the body, an exception included). So when the body itself leaves the stack
  as it found it, the stack after the \<^verbatim>\<open>with\<close> statement is the stack before it,
  and nothing else of the state is touched by the scope.
\<close>

theorem meTal_scope_stack_discipline:
  fixes body :: "state \<Rightarrow> (exn + 'r) \<times> state"
  assumes "meTalmanager_enter decorator args kws s = (r1, s1)"
      and "body s1 = (r, s2)"
      and "meTalizers s2 = meTalizers s1"
  shows "r1 = Inr () \<and> s1 = s\<lparr>meTalizers := meTalizers s @ [(decorator, args, kws)]\<rparr> \<and>
         meTalmanager_exit s2 = (Inr (), s2\<lparr>meTalizers := butlast (meTalizers s2)\<rparr>) \<and>
         with_meTal decorator args kws body s = (r, s2\<lparr>meTalizers := meTalizers s\<rparr>)"
proof -
  have e: "r1 = Inr ()" "s1 = s\<lparr>meTalizers := meTalizers s @ [(decorator, args, kws)]\<rparr>"
    using assms(1) by (auto simp: meTalmanager_enter_def)
  have st: "meTalizers s2 = meTalizers s @ [(decorator, args, kws)]"
    using assms(3) e by simp
  have x: "meTalmanager_exit s2 = (Inr (), s2\<lparr>meTalizers := butlast (meTalizers s2)\<rparr>)"
    by (simp add: meTalmanager_exit_def st)
  have w: "with_meTal decorator args kws body s = (r, s2\<lparr>meTalizers := meTalizers s\<rparr>)"
    using assms(1,2) e x st by (simp add: with_meTal_def)
  show ?thesis using e x w by simp
qed

text \<open>
  A run: a scope whose body opens a second scope, whose body raises. Both tuples are
  popped and the exception reaches the caller.
\<close>

theorem meTal_scope_stack_discipline_witness:
  "meTalmanager_enter (VObj ''decorator1'') [VStr ''arg''] [] (one_module simple_py []) =
     (Inr (), one_module simple_py [(VObj ''decorator1'', [VStr ''arg''], [])]) \<and>
   nested_body (one_module simple_py [(VObj ''decorator1'', [VStr ''arg''], [])]) =
     (Inl (Raised ''boom''), one_module simple_py [(VObj ''decorator1'', [VStr ''arg''], [])]) \<and>
   with_meTal (VObj ''decorator1'') [VStr ''arg''] [] nested_body (one_module simple_py []) =
     (Inl (Raised ''boom''), one_module simple_py [])"
proof -
  let ?s = "one_module simple_py []"
  let ?s1 = "one_module simple_py [(VObj ''decorator1'', [VStr ''arg''], [])]"
  have h1: "meTalmanager_enter (VObj ''decorator1'') [VStr ''arg''] [] ?s = (Inr (), ?s1)"
    by (simp add: meTalmanager_enter_def one_module_def)
  have h2: "nested_body ?s1 = (Inl (Raised ''boom''), ?s1)"
    by (simp add: nested_body_def with_meTal_def meTalmanager_enter_def meTalmanager_exit_def
        raising_body_def one_module_def)
  have h3: "meTalizers ?s1 = meTalizers ?s1" by simp
  from meTal_scope_stack_discipline [where body = nested_body, OF h1 h2 h3]
  have "with_meTal (VObj ''decorator1'') [VStr ''arg''] [] nested_body ?s =
          (Inl (Raised ''boom''), ?s1\<lparr>meTalizers := meTalizers ?s\<rparr>)"
    by simp
  then show ?thesis using h1 h2 by (simp add: one_module_def)
qed

lemmas run_defs =
  meTalizing_import_def cached_import_def one_module_def meTalize_names_def meTalize_dict_def
  hasattr_def lookup_def meTalized_names_def meTalized_list_def dir_names_def lower_values
  dict_pop_def setattr_def readonly_attr_def module_type_attrs_def
  meTalized_copy_def dict_update_def decorate_with_def sym_call_def

section \<open>Collisions of names\<close>

text \<open>
  C5, as the code has it. The renaming does not keep names apart. In a module without
  \<^verbatim>\<open>__meTalized__\<close>, none of whose cased names has \<^verbatim>\<open>__dict__\<close> or \<^verbatim>\<open>__class__\<close> as
  lowercase form (there \<^verbatim>\<open>setattr\<close> raises), a cased name \<open>c\<close> is removed, and its
  lowercase form is bound to the value of the last name, in the order of \<^verbatim>\<open>dir\<close>, among
  the cased names with that lowercase form, whatever the lowercase name was bound to
  before.
\<close>

theorem renaming_overwrites_lowercase:
  assumes "builtin_import args s = (Inr a, s1)" and "a < next_addr s1"
      and "\<not> hasattr (modules s1 a) ''__meTalized__''"
      and "\<forall>x\<in>set (dir_names (modules s1 a)). x \<noteq> lower x \<longrightarrow> \<not> readonly_attr (lower x)"
      and "lookup (modules s1 a) c = Some v" and "c \<noteq> lower c"
  shows "lookup (modules (snd (meTalizing_import builtin_import call args s)) a) c = None \<and>
         cased_sources (dir_names (modules s1 a)) (lower c) \<noteq> [] \<and>
         lookup (modules (snd (meTalizing_import builtin_import call args s)) a) (lower c) =
           lookup (modules s1 a) (last (cased_sources (dir_names (modules s1 a)) (lower c)))"
proof -
  let ?d = "modules s1 a"
  let ?M = "''__meTalized__''"
  obtain r s' where h: "meTalizing_import builtin_import call args s = (r, s')"
    by (cases "meTalizing_import builtin_import call args s")
  from hook_frame[OF assms(1,2) h] have fr: "modules s' a = snd (meTalize_dict ?d)" by simp
  from meTalize_dict_first[OF assms(3,4)] obtain d' where
    d': "meTalize_dict ?d = (Inr (), d')" and
    l: "\<And>k. k \<noteq> ?M \<Longrightarrow> lookup d' k =
              (if k \<noteq> lower k \<and> lookup ?d k \<noteq> None then None
               else if cased_sources (dir_names ?d) k \<noteq> [] then lookup ?d (last (cased_sources (dir_names ?d) k))
               else lookup ?d k)" by blast
  have cM: "c \<noteq> ?M" using assms(3,5) by (auto simp: hasattr_meTalized)
  have lM: "lower c \<noteq> ?M" using meTalized_cased lower_idem by metis
  have src: "c \<in> set (cased_sources (dir_names ?d) (lower c))"
    using assms(5,6) by (simp add: cased_sources_def in_dir_names)
  then have ne: "cased_sources (dir_names ?d) (lower c) \<noteq> []" by auto
  have 1: "lookup d' c = None" using l[OF cM] assms(5,6) by simp
  have 2: "lookup d' (lower c) = lookup ?d (last (cased_sources (dir_names ?d) (lower c)))"
    using l[OF lM] ne by (simp add: lower_idem)
  show ?thesis using 1 2 ne fr d' h by simp
qed

text \<open>
  The module that defines \<^verbatim>\<open>hello\<close> and \<^verbatim>\<open>HellO\<close>: after the import \<^verbatim>\<open>hello\<close> is the
  function that was \<^verbatim>\<open>HellO\<close>.
\<close>

theorem renaming_overwrites_lowercase_witness:
  "cached_import [(''simple'', 0)] ''simple'' (one_module collide_py []) =
     (Inr 0, one_module collide_py []) \<and>
   0 < next_addr (one_module collide_py []) \<and>
   \<not> hasattr (modules (one_module collide_py []) 0) ''__meTalized__'' \<and>
   lookup (modules (one_module collide_py []) 0) ''HellO'' = Some (VObj ''f2'') \<and>
   ''HellO'' \<noteq> lower ''HellO'' \<and>
   lookup (modules (snd (meTalizing_import (cached_import [(''simple'', 0)]) sym_call ''simple''
                           (one_module collide_py []))) 0) ''HellO'' = None \<and>
   lookup (modules (snd (meTalizing_import (cached_import [(''simple'', 0)]) sym_call ''simple''
                           (one_module collide_py []))) 0) ''hello'' = Some (VObj ''f2'')"
proof -
  let ?s = "one_module collide_py []"
  have h1: "cached_import [(''simple'', 0)] ''simple'' ?s = (Inr 0, ?s)"
    by (simp add: cached_import_def)
  have h2: "0 < next_addr ?s" by (simp add: one_module_def)
  have h3: "\<not> hasattr (modules ?s 0) ''__meTalized__''"
    by (simp add: one_module_def collide_py_def hasattr_meTalized lookup_def)
  have dn: "dir_names (modules ?s 0) = [''HellO'', ''__name__'', ''hello'']"
    by (simp add: one_module_def collide_py_def dir_names_def)
  have h4: "\<forall>x\<in>set (dir_names (modules ?s 0)). x \<noteq> lower x \<longrightarrow> \<not> readonly_attr (lower x)"
    by (simp add: dn lower_values readonly_attr_def)
  have h5: "lookup (modules ?s 0) ''HellO'' = Some (VObj ''f2'')"
    by (simp add: one_module_def collide_py_def lookup_def)
  have h6: "''HellO'' \<noteq> lower ''HellO''" by (simp add: lower_values)
  have "last (cased_sources (dir_names (modules ?s 0)) (lower ''HellO'')) = ''HellO''"
    by (simp add: dn cased_sources_def lower_values)
  with renaming_overwrites_lowercase [where builtin_import = "cached_import [(''simple'', 0)]"
      and args = "''simple''" and call = sym_call, OF h1 h2 h3 h4 h5 h6] h1 h2 h3 h4 h5 h6
  show ?thesis by (simp add: lower_values)
qed

text \<open>
  Against C5 as stated: \<^verbatim>\<open>hello\<close> and \<^verbatim>\<open>HellO\<close> are two names of the module, bound to
  \<^verbatim>\<open>f1\<close> and \<^verbatim>\<open>f2\<close>. After the first import the module binds \<^verbatim>\<open>hello\<close> to \<^verbatim>\<open>f2\<close>, and
  \<^verbatim>\<open>f1\<close> is bound to no name: one of the two definitions is lost.
\<close>

theorem collision_loses_definition_counterexample:
  "lookup collide_py ''hello'' = Some (VObj ''f1'') \<and>
   lookup collide_py ''HellO'' = Some (VObj ''f2'') \<and>
   fst (meTalizing_import (cached_import [(''simple'', 0)]) sym_call ''simple''
          (one_module collide_py [])) = Inr 0 \<and>
   modules (snd (meTalizing_import (cached_import [(''simple'', 0)]) sym_call ''simple''
                   (one_module collide_py []))) 0 =
     [(''__name__'', VStr ''simple''), (''hello'', VObj ''f2''),
      (''__meTalized__'', VList [VStr ''hello''])]"
  by (simp add: run_defs collide_py_def)

section \<open>The first import of a module\<close>

lemma meTalized_list_eq:
  "meTalized_list d = VList (map VStr (map lower (filter (\<lambda>c. c \<noteq> lower c) (dir_names d))))"
  by (simp add: meTalized_list_def meTalized_names_def filter_map comp_def)

lemma filter_eq_distinct:
  "distinct xs \<Longrightarrow> c \<in> set xs \<Longrightarrow> filter (\<lambda>x. x = c) xs = [c]"
  by (induction xs) (auto simp: filter_empty_conv)

lemma cased_sources_inj:
  assumes "inj_on lower (set ns)" and "c \<in> set ns"
  shows "cased_sources ns (lower c) = (if c \<noteq> lower c then filter (\<lambda>x. x = c) ns else [])"
proof -
  have "\<And>x. x \<in> set ns \<Longrightarrow> lower x = lower c \<longleftrightarrow> x = c"
    using assms by (auto dest: inj_onD)
  then have "cased_sources ns (lower c) = filter (\<lambda>x. x \<noteq> lower x \<and> x = c) ns"
    unfolding cased_sources_def by (intro filter_cong) auto
  also have "\<dots> = (if c \<noteq> lower c then filter (\<lambda>x. x = c) ns else [])"
    by (auto intro: filter_cong simp: filter_empty_conv)
  finally show ?thesis .
qed

text \<open>
  C6, as the code has it. When no two names of the module share a lowercase form and no
  cased name has \<^verbatim>\<open>__dict__\<close> or \<^verbatim>\<open>__class__\<close> as lowercase form (there
  \<^verbatim>\<open>setattr\<close> raises), the first import (the module has no \<^verbatim>\<open>__meTalized__\<close> yet)
  records in
  \<^verbatim>\<open>__meTalized__\<close> the lowercase form of every name that differs from its lowercase
  form, in the order of \<^verbatim>\<open>dir\<close>; binds the value of each such name to the lowercase
  name and removes the cased name; leaves every binding of a lowercase name as it was;
  and binds no other name.
\<close>

theorem first_import_meTalizes_names:
  assumes "builtin_import args s = (Inr a, s1)" and "a < next_addr s1"
      and "\<not> hasattr (modules s1 a) ''__meTalized__''"
      and "inj_on lower (set (dir_names (modules s1 a)))"
      and "\<forall>x\<in>set (dir_names (modules s1 a)). x \<noteq> lower x \<longrightarrow> \<not> readonly_attr (lower x)"
  shows "lookup (modules (snd (meTalizing_import builtin_import call args s)) a) ''__meTalized__'' =
           Some (VList (map VStr (map lower (filter (\<lambda>c. c \<noteq> lower c) (dir_names (modules s1 a)))))) \<and>
         (\<forall>c v. lookup (modules s1 a) c = Some v \<and> c \<noteq> lower c \<longrightarrow>
            lookup (modules (snd (meTalizing_import builtin_import call args s)) a) (lower c) = Some v \<and>
            lookup (modules (snd (meTalizing_import builtin_import call args s)) a) c = None) \<and>
         (\<forall>k v. lookup (modules s1 a) k = Some v \<and> k = lower k \<longrightarrow>
            lookup (modules (snd (meTalizing_import builtin_import call args s)) a) k = Some v) \<and>
         (\<forall>k. k \<noteq> ''__meTalized__'' \<and> lookup (modules s1 a) k = None \<and>
              cased_sources (dir_names (modules s1 a)) k = [] \<longrightarrow>
            lookup (modules (snd (meTalizing_import builtin_import call args s)) a) k = None)"
proof -
  let ?d = "modules s1 a"
  let ?M = "''__meTalized__''"
  let ?d' = "modules (snd (meTalizing_import builtin_import call args s)) a"
  obtain r s' where h: "meTalizing_import builtin_import call args s = (r, s')"
    by (cases "meTalizing_import builtin_import call args s")
  from hook_frame[OF assms(1,2) h] h have fr: "?d' = snd (meTalize_dict ?d)" by simp
  from meTalize_dict_first[OF assms(3,5)] fr have
    m: "lookup ?d' ?M = Some (meTalized_list ?d)" and
    l: "\<And>k. k \<noteq> ?M \<Longrightarrow> lookup ?d' k =
              (if k \<noteq> lower k \<and> lookup ?d k \<noteq> None then None
               else if cased_sources (dir_names ?d) k \<noteq> [] then lookup ?d (last (cased_sources (dir_names ?d) k))
               else lookup ?d k)" by auto
  have notM: "\<And>k v. lookup ?d k = Some v \<Longrightarrow> k \<noteq> ?M"
    using assms(3) by (auto simp: hasattr_meTalized)
  have lowM: "\<And>k. lower k \<noteq> ?M" using meTalized_cased lower_idem by metis
  have 1: "lookup ?d' ?M =
           Some (VList (map VStr (map lower (filter (\<lambda>c. c \<noteq> lower c) (dir_names ?d)))))"
    using m by (simp add: meTalized_list_eq)
  have 2: "lookup ?d' (lower c) = Some v \<and> lookup ?d' c = None"
    if "lookup ?d c = Some v" "c \<noteq> lower c" for c v
  proof -
    have cin: "c \<in> set (dir_names ?d)" using that by (simp add: in_dir_names)
    have "filter (\<lambda>x. x = c) (dir_names ?d) = [c]"
      using cin distinct_dir_names[of ?d] by (simp add: filter_eq_distinct)
    then have "cased_sources (dir_names ?d) (lower c) = [c]"
      using cased_sources_inj[OF assms(4) cin] that by simp
    then have "lookup ?d' (lower c) = Some v"
      using l[OF lowM] that by (simp add: lower_idem)
    moreover have "lookup ?d' c = None" using l[OF notM[OF that(1)]] that by simp
    ultimately show ?thesis by simp
  qed
  have 3: "lookup ?d' k = Some v" if "lookup ?d k = Some v" "k = lower k" for k v
  proof -
    have kin: "k \<in> set (dir_names ?d)" using that by (simp add: in_dir_names)
    have "cased_sources (dir_names ?d) (lower k) = []"
      using cased_sources_inj[OF assms(4) kin] that by simp
    then show ?thesis using l[OF notM[OF that(1)]] that by simp
  qed
  have 4: "lookup ?d' k = None"
    if "k \<noteq> ?M" "lookup ?d k = None" "cased_sources (dir_names ?d) k = []" for k
    using l[OF that(1)] that by simp
  show ?thesis using 1 2 3 4 by blast
qed

theorem first_import_meTalizes_names_witness:
  "cached_import [(''simple'', 0)] ''simple'' (one_module simple_py []) =
     (Inr 0, one_module simple_py []) \<and>
   0 < next_addr (one_module simple_py []) \<and>
   \<not> hasattr (modules (one_module simple_py []) 0) ''__meTalized__'' \<and>
   inj_on lower (set (dir_names (modules (one_module simple_py []) 0))) \<and>
   lookup (modules (one_module simple_py []) 0) ''HellO'' = Some (VObj ''f'') \<and>
   lookup (modules (one_module simple_py []) 0) ''__doc__'' = Some VNone \<and>
   lookup (modules (snd (meTalizing_import (cached_import [(''simple'', 0)]) sym_call ''simple''
                           (one_module simple_py []))) 0) ''__meTalized__'' =
     Some (VList [VStr ''hello'']) \<and>
   lookup (modules (snd (meTalizing_import (cached_import [(''simple'', 0)]) sym_call ''simple''
                           (one_module simple_py []))) 0) ''hello'' = Some (VObj ''f'') \<and>
   lookup (modules (snd (meTalizing_import (cached_import [(''simple'', 0)]) sym_call ''simple''
                           (one_module simple_py []))) 0) ''HellO'' = None \<and>
   lookup (modules (snd (meTalizing_import (cached_import [(''simple'', 0)]) sym_call ''simple''
                           (one_module simple_py []))) 0) ''__doc__'' = Some VNone"
proof -
  let ?s = "one_module simple_py []"
  have h1: "cached_import [(''simple'', 0)] ''simple'' ?s = (Inr 0, ?s)"
    by (simp add: cached_import_def)
  have h2: "0 < next_addr ?s" by (simp add: one_module_def)
  have h3: "\<not> hasattr (modules ?s 0) ''__meTalized__''"
    by (simp add: one_module_def simple_py_def hasattr_meTalized lookup_def)
  have dn: "dir_names (modules ?s 0) = [''HellO'', ''__doc__'', ''__name__'']"
    by (simp add: one_module_def simple_py_def dir_names_def)
  have h4: "inj_on lower (set (dir_names (modules ?s 0)))"
    by (simp add: dn lower_values)
  have h4': "\<forall>x\<in>set (dir_names (modules ?s 0)). x \<noteq> lower x \<longrightarrow> \<not> readonly_attr (lower x)"
    by (simp add: dn lower_values readonly_attr_def)
  have h5: "lookup (modules ?s 0) ''HellO'' = Some (VObj ''f'')"
           "lookup (modules ?s 0) ''__doc__'' = Some VNone"
    by (simp_all add: one_module_def simple_py_def lookup_def)
  have lw: "''HellO'' \<noteq> lower ''HellO''" "''__doc__'' = lower ''__doc__''"
    by (simp_all add: lower_values)
  let ?d' = "modules (snd (meTalizing_import (cached_import [(''simple'', 0)]) sym_call ''simple'' ?s)) 0"
  note t = first_import_meTalizes_names [where builtin_import = "cached_import [(''simple'', 0)]"
      and args = "''simple''" and call = sym_call, OF h1 h2 h3 h4 h4']
  from t have a: "lookup ?d' ''__meTalized__'' = Some (VList [VStr ''hello''])"
    by (simp add: dn lower_values)
  from t have "lookup (modules ?s 0) ''HellO'' = Some (VObj ''f'') \<and> ''HellO'' \<noteq> lower ''HellO'' \<longrightarrow>
      lookup ?d' (lower ''HellO'') = Some (VObj ''f'') \<and> lookup ?d' ''HellO'' = None"
    by blast
  with h5 lw have b: "lookup ?d' ''hello'' = Some (VObj ''f'')" "lookup ?d' ''HellO'' = None"
    by (simp_all add: lower_values)
  from t have "lookup (modules ?s 0) ''__doc__'' = Some VNone \<and> ''__doc__'' = lower ''__doc__'' \<longrightarrow>
      lookup ?d' ''__doc__'' = Some VNone"
    by blast
  with h5 lw have c: "lookup ?d' ''__doc__'' = Some VNone" by simp
  show ?thesis using h1 h2 h3 h4 h4' h5 a b c by simp
qed

text \<open>
  Against C6 as stated: the module binds \<^verbatim>\<open>run\<close>, \<^verbatim>\<open>RUN\<close> and \<^verbatim>\<open>Run\<close> to
  \<^verbatim>\<open>r1\<close>, \<^verbatim>\<open>r2\<close> and \<^verbatim>\<open>r3\<close>. The name \<^verbatim>\<open>run\<close> is its own lowercase form and yet
  its binding changes, and the value of \<^verbatim>\<open>RUN\<close> is bound to no name in the end.
\<close>

theorem lowercase_name_changed_counterexample:
  "lookup shout_py ''run'' = Some (VObj ''r1'') \<and> ''run'' = lower ''run'' \<and>
   lookup shout_py ''RUN'' = Some (VObj ''r2'') \<and> ''RUN'' \<noteq> lower ''RUN'' \<and>
   fst (meTalizing_import (cached_import [(''shout'', 0)]) sym_call ''shout''
          (one_module shout_py [])) = Inr 0 \<and>
   modules (snd (meTalizing_import (cached_import [(''shout'', 0)]) sym_call ''shout''
                   (one_module shout_py []))) 0 =
     [(''__name__'', VStr ''shout''), (''run'', VObj ''r3''),
      (''__meTalized__'', VList [VStr ''run'', VStr ''run''])]"
  by (simp add: run_defs shout_py_def)

section \<open>Decoration by the stack\<close>

text \<open>
  C2, as the code has it. With the stack \<open>d1, ..., dn\<close> from the outermost scope to the
  innermost, an attribute \<open>f\<close> of the module whose name the list \<^verbatim>\<open>__meTalized__\<close>
  holds exactly once is bound, in the module that the hook returns, to
  \<open>d1(d2(...dn(f)...))\<close>: the decorator of the outermost scope is the outermost wrapper.
\<close>

theorem stack_wraps_outermost_first:
  assumes "builtin_import args s = (Inr a, s1)" and "a < next_addr s1"
      and "meTalizers s1 \<noteq> []"
      and "meTalizing_import builtin_import call args s = (Inr b, s')"
      and "lookup (modules s' a) ''__meTalized__'' = Some (VList names)"
      and "count_list names (VStr n) = 1"
      and "lookup (modules s' a) n = Some f"
  shows "\<exists>g. stacked call (meTalizers s1) f = Inr g \<and> lookup (modules s' b) n = Some g"
proof -
  have it: "iter_val (VList names) = Inr names" by simp
  from hook_decorated_lookup[OF assms(1-5) it] assms(7) obtain g where
    w: "wrap_times call (meTalizers s1) (count_list names (VStr n)) f = Inr g" and
    g: "lookup (modules s' b) n = Some g" by blast
  from w assms(6) have "stacked call (meTalizers s1) f = Inr g"
    by (simp split: sum.splits)
  with g show ?thesis by blast
qed

text \<open>
  \<^verbatim>\<open>with meTal(decorator1), meTal(decorator2): import simple\<close> gives
  \<^verbatim>\<open>decorator1(decorator2(hello))\<close>.
\<close>

theorem stack_wraps_outermost_first_witness:
  "cached_import [(''simple'', 0)] ''simple''
     (one_module simple_py [(VObj ''decorator1'', [], []), (VObj ''decorator2'', [], [])]) =
     (Inr 0, one_module simple_py [(VObj ''decorator1'', [], []), (VObj ''decorator2'', [], [])]) \<and>
   fst (meTalizing_import (cached_import [(''simple'', 0)]) sym_call ''simple''
     (one_module simple_py [(VObj ''decorator1'', [], []), (VObj ''decorator2'', [], [])])) = Inr 1 \<and>
   lookup (modules (snd (meTalizing_import (cached_import [(''simple'', 0)]) sym_call ''simple''
     (one_module simple_py [(VObj ''decorator1'', [], []), (VObj ''decorator2'', [], [])]))) 0)
     ''__meTalized__'' = Some (VList [VStr ''hello'']) \<and>
   lookup (modules (snd (meTalizing_import (cached_import [(''simple'', 0)]) sym_call ''simple''
     (one_module simple_py [(VObj ''decorator1'', [], []), (VObj ''decorator2'', [], [])]))) 0)
     ''hello'' = Some (VObj ''f'') \<and>
   lookup (modules (snd (meTalizing_import (cached_import [(''simple'', 0)]) sym_call ''simple''
     (one_module simple_py [(VObj ''decorator1'', [], []), (VObj ''decorator2'', [], [])]))) 1)
     ''hello'' = Some (VApp (VObj ''decorator1'') [VApp (VObj ''decorator2'') [VObj ''f''] []] [])"
proof -
  let ?stack = "[(VObj ''decorator1'', [], []), (VObj ''decorator2'', [], [])]"
  let ?s = "one_module simple_py ?stack"
  let ?run = "meTalizing_import (cached_import [(''simple'', 0)]) sym_call ''simple'' ?s"
  have h1: "cached_import [(''simple'', 0)] ''simple'' ?s = (Inr 0, ?s)"
    by (simp add: cached_import_def)
  have h2: "0 < next_addr ?s" by (simp add: one_module_def)
  have h3: "meTalizers ?s \<noteq> []" by (simp add: one_module_def)
  have r: "fst ?run = Inr 1" by (simp add: run_defs simple_py_def)
  then have h4: "?run = (Inr 1, snd ?run)" by (metis prod.collapse)
  have h5: "lookup (modules (snd ?run) 0) ''__meTalized__'' = Some (VList [VStr ''hello''])"
    by (simp add: run_defs simple_py_def)
  have h6: "count_list [VStr ''hello''] (VStr ''hello'') = 1" by simp
  have h7: "lookup (modules (snd ?run) 0) ''hello'' = Some (VObj ''f'')"
    by (simp add: run_defs simple_py_def)
  from stack_wraps_outermost_first [where builtin_import = "cached_import [(''simple'', 0)]"
      and args = "''simple''" and call = sym_call, OF h1 h2 h3 h4 h5 h6 h7]
  have "lookup (modules (snd ?run) 1) ''hello'' =
          Some (VApp (VObj ''decorator1'') [VApp (VObj ''decorator2'') [VObj ''f''] []] [])"
    by (auto simp: one_module_def decorate_with_def sym_call_def)
  then show ?thesis using h1 r h5 h7 by simp
qed

text \<open>
  Against C2 as stated: the module defines \<^verbatim>\<open>HELLO\<close> and \<^verbatim>\<open>HellO\<close>, so the list
  \<^verbatim>\<open>__meTalized__\<close> holds \<^verbatim>\<open>hello\<close> twice. Under the single scope of \<^verbatim>\<open>d\<close> the
  attribute \<^verbatim>\<open>hello\<close>, which is \<^verbatim>\<open>f2\<close> in the module, comes back as \<^verbatim>\<open>d(d(f2))\<close>
  and not as \<^verbatim>\<open>d(f2)\<close>.
\<close>

theorem double_wrapping_counterexample:
  "meTalizers (one_module twice_py [(VObj ''d'', [], [])]) = [(VObj ''d'', [], [])] \<and>
   fst (meTalizing_import (cached_import [(''twice'', 0)]) sym_call ''twice''
          (one_module twice_py [(VObj ''d'', [], [])])) = Inr 1 \<and>
   lookup (modules (snd (meTalizing_import (cached_import [(''twice'', 0)]) sym_call ''twice''
          (one_module twice_py [(VObj ''d'', [], [])]))) 0) ''__meTalized__'' =
     Some (VList [VStr ''hello'', VStr ''hello'']) \<and>
   lookup (modules (snd (meTalizing_import (cached_import [(''twice'', 0)]) sym_call ''twice''
          (one_module twice_py [(VObj ''d'', [], [])]))) 0) ''hello'' = Some (VObj ''f2'') \<and>
   stacked sym_call [(VObj ''d'', [], [])] (VObj ''f2'') = Inr (VApp (VObj ''d'') [VObj ''f2''] []) \<and>
   lookup (modules (snd (meTalizing_import (cached_import [(''twice'', 0)]) sym_call ''twice''
          (one_module twice_py [(VObj ''d'', [], [])]))) 1) ''hello'' =
     Some (VApp (VObj ''d'') [VApp (VObj ''d'') [VObj ''f2''] []] [])"
  by (simp add: run_defs twice_py_def)

section \<open>What one element of the stack contributes\<close>

text \<open>
  C7. A scope pushes the tuple \<open>(decorator, args, kwargs)\<close>. Take any element of the
  stack, with the elements \<open>outer\<close> pushed before it and the elements \<open>inner\<close> pushed
  after it. In every pass of the stack over a value \<open>v\<close>, the inner elements give \<open>g0\<close>
  and the element contributes \<open>decorator(*args, **kwargs)(g0)\<close> when \<open>args\<close> or \<open>kwargs\<close>
  is not empty, and \<open>decorator(g0)\<close> when both are empty; the outer elements are stacked
  on that. For every attribute \<open>f\<close> of the module whose name is listed, the module that
  the hook returns binds the name to the result of such passes, the first one over
  \<open>f\<close>, one for each occurrence of the name in the list.
\<close>

theorem meTalizer_tuple_use:
  assumes "builtin_import args s = (Inr a, s1)" and "a < next_addr s1"
      and "meTalizers s1 = outer @ (decorate, dargs, dkwargs) # inner"
      and "meTalizing_import builtin_import call args s = (Inr b, s')"
      and "lookup (modules s' a) ''__meTalized__'' = Some (VList names)"
      and "VStr n \<in> set names"
      and "lookup (modules s' a) n = Some f"
  shows "meTalizers (snd (meTalmanager_enter decorate dargs dkwargs t)) =
           meTalizers t @ [(decorate, dargs, dkwargs)] \<and>
         (\<forall>v. stacked call (meTalizers s1) v =
            (case stacked call inner v of
               Inl e \<Rightarrow> Inl e
             | Inr g0 \<Rightarrow>
                (case (if dargs \<noteq> [] \<or> dkwargs \<noteq> []
                       then (case call decorate dargs dkwargs of
                               Inl e \<Rightarrow> Inl e
                             | Inr dec \<Rightarrow> call dec [g0] [])
                       else call decorate [g0] []) of
                   Inl e \<Rightarrow> Inl e
                 | Inr g1 \<Rightarrow> stacked call outer g1))) \<and>
         (\<exists>g0 g1 g2 g.
            stacked call inner f = Inr g0 \<and>
            (if dargs \<noteq> [] \<or> dkwargs \<noteq> []
             then (\<exists>dec. call decorate dargs dkwargs = Inr dec \<and> call dec [g0] [] = Inr g1)
             else call decorate [g0] [] = Inr g1) \<and>
            stacked call outer g1 = Inr g2 \<and>
            wrap_times call (meTalizers s1) (count_list names (VStr n) - 1) g2 = Inr g \<and>
            lookup (modules s' b) n = Some g)"
proof -
  let ?m = "(decorate, dargs, dkwargs)"
  have 1: "meTalizers (snd (meTalmanager_enter decorate dargs dkwargs t)) =
           meTalizers t @ [(decorate, dargs, dkwargs)]"
    by (simp add: meTalmanager_enter_def)
  have pass: "stacked call (meTalizers s1) v =
            (case stacked call inner v of
               Inl e \<Rightarrow> Inl e
             | Inr g0 \<Rightarrow>
                (case decorate_with call ?m g0 of
                   Inl e \<Rightarrow> Inl e
                 | Inr g1 \<Rightarrow> stacked call outer g1))" for v
    by (simp add: assms(3) stacked_append split: sum.splits)
  have dw: "decorate_with call ?m g0 =
              (if dargs \<noteq> [] \<or> dkwargs \<noteq> []
               then (case call decorate dargs dkwargs of
                       Inl e \<Rightarrow> Inl e
                     | Inr dec \<Rightarrow> call dec [g0] [])
               else call decorate [g0] [])" for g0
    by (simp add: decorate_with_def)
  have 2: "\<forall>v. stacked call (meTalizers s1) v =
            (case stacked call inner v of
               Inl e \<Rightarrow> Inl e
             | Inr g0 \<Rightarrow>
                (case (if dargs \<noteq> [] \<or> dkwargs \<noteq> []
                       then (case call decorate dargs dkwargs of
                               Inl e \<Rightarrow> Inl e
                             | Inr dec \<Rightarrow> call dec [g0] [])
                       else call decorate [g0] []) of
                   Inl e \<Rightarrow> Inl e
                 | Inr g1 \<Rightarrow> stacked call outer g1))"
    unfolding dw[symmetric] using pass by blast
  have it: "iter_val (VList names) = Inr names" by simp
  have ne: "meTalizers s1 \<noteq> []" using assms(3) by simp
  from hook_decorated_lookup[OF assms(1,2) ne assms(4,5) it] assms(7) obtain g where
    w: "wrap_times call (meTalizers s1) (count_list names (VStr n)) f = Inr g" and
    g: "lookup (modules s' b) n = Some g" by blast
  from assms(6) obtain k where k: "count_list names (VStr n) = Suc k"
    by (metis count_list_0_iff not0_implies_Suc)
  from w k obtain g2 where
    p1: "stacked call (meTalizers s1) f = Inr g2" and
    rest: "wrap_times call (meTalizers s1) k g2 = Inr g"
    by (auto split: sum.splits)
  from p1 pass[of f] obtain g0 g1 where
    g0: "stacked call inner f = Inr g0" and
    g1: "decorate_with call ?m g0 = Inr g1" and
    g2: "stacked call outer g1 = Inr g2"
    by (auto split: sum.splits)
  from g1 have c: "if dargs \<noteq> [] \<or> dkwargs \<noteq> []
             then (\<exists>dec. call decorate dargs dkwargs = Inr dec \<and> call dec [g0] [] = Inr g1)
             else call decorate [g0] [] = Inr g1"
    by (auto simp: decorate_with_def split: sum.splits if_splits)
  have 3: "\<exists>g0 g1 g2 g.
            stacked call inner f = Inr g0 \<and>
            (if dargs \<noteq> [] \<or> dkwargs \<noteq> []
             then (\<exists>dec. call decorate dargs dkwargs = Inr dec \<and> call dec [g0] [] = Inr g1)
             else call decorate [g0] [] = Inr g1) \<and>
            stacked call outer g1 = Inr g2 \<and>
            wrap_times call (meTalizers s1) (count_list names (VStr n) - 1) g2 = Inr g \<and>
            lookup (modules s' b) n = Some g"
    using g0 c g2 rest g k by auto
  show ?thesis using 1 2 3 by blast
qed

text \<open>
  \<^verbatim>\<open>with meTal(d1), meTal(jit, 'nopython'), meTal(d3): import twice\<close>, where the module
  lists \<^verbatim>\<open>hello\<close> twice: two passes, and in each \<^verbatim>\<open>jit('nopython')\<close> is called on what
  \<^verbatim>\<open>d3\<close> returned, with \<^verbatim>\<open>d1\<close> on top.
\<close>

theorem meTalizer_tuple_use_witness:
  "meTalizers (snd (meTalmanager_enter (VObj ''jit'') [VStr ''nopython''] []
      (one_module twice_py [(VObj ''d1'', [], [])]))) =
     [(VObj ''d1'', [], [])] @ [(VObj ''jit'', [VStr ''nopython''], [])] \<and>
   fst (meTalizing_import (cached_import [(''twice'', 0)]) sym_call ''twice''
     (one_module twice_py
        [(VObj ''d1'', [], []), (VObj ''jit'', [VStr ''nopython''], []), (VObj ''d3'', [], [])])) =
     Inr 1 \<and>
   lookup (modules (snd (meTalizing_import (cached_import [(''twice'', 0)]) sym_call ''twice''
     (one_module twice_py
        [(VObj ''d1'', [], []), (VObj ''jit'', [VStr ''nopython''], []), (VObj ''d3'', [], [])]))) 0)
     ''hello'' = Some (VObj ''f2'') \<and>
   lookup (modules (snd (meTalizing_import (cached_import [(''twice'', 0)]) sym_call ''twice''
     (one_module twice_py
        [(VObj ''d1'', [], []), (VObj ''jit'', [VStr ''nopython''], []), (VObj ''d3'', [], [])]))) 1)
     ''hello'' =
     Some (VApp (VObj ''d1'')
            [VApp (VApp (VObj ''jit'') [VStr ''nopython''] [])
              [VApp (VObj ''d3'')
                [VApp (VObj ''d1'')
                  [VApp (VApp (VObj ''jit'') [VStr ''nopython''] [])
                    [VApp (VObj ''d3'') [VObj ''f2''] []] []] []] []] []] [])"
proof -
  let ?stack = "[(VObj ''d1'', [], []), (VObj ''jit'', [VStr ''nopython''], []), (VObj ''d3'', [], [])]"
  let ?s = "one_module twice_py ?stack"
  let ?run = "meTalizing_import (cached_import [(''twice'', 0)]) sym_call ''twice'' ?s"
  let ?t = "one_module twice_py [(VObj ''d1'', [], [])]"
  have h1: "cached_import [(''twice'', 0)] ''twice'' ?s = (Inr 0, ?s)"
    by (simp add: cached_import_def)
  have h2: "0 < next_addr ?s" by (simp add: one_module_def)
  have h3: "meTalizers ?s =
      [(VObj ''d1'', [], [])] @ (VObj ''jit'', [VStr ''nopython''], []) # [(VObj ''d3'', [], [])]"
    by (simp add: one_module_def)
  have r: "fst ?run = Inr 1" by (simp add: run_defs twice_py_def)
  then have h4: "?run = (Inr 1, snd ?run)" by (metis prod.collapse)
  have h5: "lookup (modules (snd ?run) 0) ''__meTalized__'' =
              Some (VList [VStr ''hello'', VStr ''hello''])"
    by (simp add: run_defs twice_py_def)
  have h6: "VStr ''hello'' \<in> set [VStr ''hello'', VStr ''hello'']" by simp
  have h7: "lookup (modules (snd ?run) 0) ''hello'' = Some (VObj ''f2'')"
    by (simp add: run_defs twice_py_def)
  note w = meTalizer_tuple_use [where builtin_import = "cached_import [(''twice'', 0)]"
      and args = "''twice''" and call = sym_call and t = ?t, OF h1 h2 h3 h4 h5 h6 h7]
  from w have a: "meTalizers (snd (meTalmanager_enter (VObj ''jit'') [VStr ''nopython''] [] ?t)) =
     [(VObj ''d1'', [], [])] @ [(VObj ''jit'', [VStr ''nopython''], [])]"
    by (simp add: one_module_def)
  from w have "\<exists>g0 g1 g2 g.
      stacked sym_call [(VObj ''d3'', [], [])] (VObj ''f2'') = Inr g0 \<and>
      (if [VStr ''nopython''] \<noteq> [] \<or> ([] :: kwargs) \<noteq> []
       then (\<exists>dec. sym_call (VObj ''jit'') [VStr ''nopython''] [] = Inr dec \<and>
                   sym_call dec [g0] [] = Inr g1)
       else sym_call (VObj ''jit'') [g0] [] = Inr g1) \<and>
      stacked sym_call [(VObj ''d1'', [], [])] g1 = Inr g2 \<and>
      wrap_times sym_call (meTalizers ?s)
        (count_list [VStr ''hello'', VStr ''hello''] (VStr ''hello'') - 1) g2 = Inr g \<and>
      lookup (modules (snd ?run) 1) ''hello'' = Some g"
    by blast
  then have b: "lookup (modules (snd ?run) 1) ''hello'' =
     Some (VApp (VObj ''d1'')
            [VApp (VApp (VObj ''jit'') [VStr ''nopython''] [])
              [VApp (VObj ''d3'')
                [VApp (VObj ''d1'')
                  [VApp (VApp (VObj ''jit'') [VStr ''nopython''] [])
                    [VApp (VObj ''d3'') [VObj ''f2''] []] []] []] []] []] [])"
    by (auto simp: one_module_def decorate_with_def sym_call_def)
  show ?thesis using a b r h7 by simp
qed

section \<open>Imports inside a scope\<close>

text \<open>
  C1, as the code has it. An import inside at least one scope (the stack is not empty)
  does not always return a module: what the renaming or a decorator raises comes out
  of the hook. When the hook returns, it returns a new module object, and every
  attribute \<open>f\<close> of the loaded module whose name is listed in \<^verbatim>\<open>__meTalized__\<close> is
  bound in it to \<open>f\<close> wrapped by the stack, \<open>stacked call stack f\<close>, and wrapped again for
  each further occurrence of the name in the list. This holds of every import, the one
  of a module that is loaded and renamed already as well.
\<close>

theorem import_in_scope_wraps:
  assumes "builtin_import args s = (Inr a, s1)" and "a < next_addr s1"
      and "meTalizers s1 \<noteq> []"
      and "meTalizing_import builtin_import call args s = (Inr b, s')"
      and "lookup (modules s' a) ''__meTalized__'' = Some (VList names)"
      and "VStr n \<in> set names"
      and "lookup (modules s' a) n = Some f"
  shows "b = next_addr s1 \<and> b \<noteq> a \<and>
         (\<exists>g1 g. stacked call (meTalizers s1) f = Inr g1 \<and>
            wrap_times call (meTalizers s1) (count_list names (VStr n) - 1) g1 = Inr g \<and>
            lookup (modules s' b) n = Some g)"
proof -
  have it: "iter_val (VList names) = Inr names" by simp
  from hook_decorated[OF assms(1-4)] assms(2) have b: "b = next_addr s1" "b \<noteq> a"
    by auto
  from hook_decorated_lookup[OF assms(1-5) it] assms(7) obtain g where
    w: "wrap_times call (meTalizers s1) (count_list names (VStr n)) f = Inr g" and
    g: "lookup (modules s' b) n = Some g" by blast
  from assms(6) obtain k where k: "count_list names (VStr n) = Suc k"
    by (metis count_list_0_iff not0_implies_Suc)
  from w k obtain g1 where
    "stacked call (meTalizers s1) f = Inr g1" "wrap_times call (meTalizers s1) k g1 = Inr g"
    by (auto split: sum.splits)
  with b g k show ?thesis by auto
qed

text \<open>
  \<^verbatim>\<open>with meTal(decorator): import simple\<close> when \<^verbatim>\<open>simple\<close> is loaded and renamed
  already: the module returned has \<^verbatim>\<open>decorator(hello)\<close>, the loaded module keeps
  \<^verbatim>\<open>hello\<close>.
\<close>

theorem import_in_scope_wraps_witness:
  "meTalizing_import (cached_import [(''simple'', 0)]) sym_call ''simple''
     (one_module simple_loaded [(VObj ''decorator'', [], [])]) =
     (Inr 1, snd (meTalizing_import (cached_import [(''simple'', 0)]) sym_call ''simple''
                    (one_module simple_loaded [(VObj ''decorator'', [], [])]))) \<and>
   lookup (modules (snd (meTalizing_import (cached_import [(''simple'', 0)]) sym_call ''simple''
     (one_module simple_loaded [(VObj ''decorator'', [], [])]))) 0) ''__meTalized__'' =
     Some (VList [VStr ''hello'']) \<and>
   lookup (modules (snd (meTalizing_import (cached_import [(''simple'', 0)]) sym_call ''simple''
     (one_module simple_loaded [(VObj ''decorator'', [], [])]))) 0) ''hello'' = Some (VObj ''f'') \<and>
   lookup (modules (snd (meTalizing_import (cached_import [(''simple'', 0)]) sym_call ''simple''
     (one_module simple_loaded [(VObj ''decorator'', [], [])]))) 1) ''hello'' =
     Some (VApp (VObj ''decorator'') [VObj ''f''] [])"
proof -
  let ?s = "one_module simple_loaded [(VObj ''decorator'', [], [])]"
  let ?run = "meTalizing_import (cached_import [(''simple'', 0)]) sym_call ''simple'' ?s"
  have h1: "cached_import [(''simple'', 0)] ''simple'' ?s = (Inr 0, ?s)"
    by (simp add: cached_import_def)
  have h2: "0 < next_addr ?s" by (simp add: one_module_def)
  have h3: "meTalizers ?s \<noteq> []" by (simp add: one_module_def)
  have r: "fst ?run = Inr 1" by (simp add: run_defs simple_loaded_def)
  then have h4: "?run = (Inr 1, snd ?run)" by (metis prod.collapse)
  have h5: "lookup (modules (snd ?run) 0) ''__meTalized__'' = Some (VList [VStr ''hello''])"
    by (simp add: run_defs simple_loaded_def)
  have h6: "VStr ''hello'' \<in> set [VStr ''hello'']" by simp
  have h7: "lookup (modules (snd ?run) 0) ''hello'' = Some (VObj ''f'')"
    by (simp add: run_defs simple_loaded_def)
  from import_in_scope_wraps [where builtin_import = "cached_import [(''simple'', 0)]"
      and args = "''simple''" and call = sym_call, OF h1 h2 h3 h4 h5 h6 h7]
  have "lookup (modules (snd ?run) 1) ''hello'' = Some (VApp (VObj ''decorator'') [VObj ''f''] [])"
    by (auto simp: one_module_def decorate_with_def sym_call_def)
  then show ?thesis using h4 h5 h7 by simp
qed

text \<open>
  Against C1 as stated: the module with \<^verbatim>\<open>Alpha\<close> and \<^verbatim>\<open>Beta\<close> is imported inside the
  scope of \<^verbatim>\<open>d\<close>, and \<^verbatim>\<open>d\<close> raises on the function \<^verbatim>\<open>g\<close> that \<^verbatim>\<open>Beta\<close> names. The
  hook returns no module: it raises what \<^verbatim>\<open>d\<close> raised.
\<close>

theorem raising_decorator_counterexample:
  "meTalizers (one_module pair_py [(VObj ''d'', [], [])]) = [(VObj ''d'', [], [])] \<and>
   cached_import [(''pair'', 0)] ''pair'' (one_module pair_py [(VObj ''d'', [], [])]) =
     (Inr 0, one_module pair_py [(VObj ''d'', [], [])]) \<and>
   picky_call (VObj ''d'') [VObj ''g''] [] = Inl (Raised ''picky'') \<and>
   fst (meTalizing_import (cached_import [(''pair'', 0)]) picky_call ''pair''
          (one_module pair_py [(VObj ''d'', [], [])])) = Inl (Raised ''picky'')"
  by (simp add: run_defs pair_py_def picky_call_def)

section \<open>The loaded module is not decorated\<close>

lemma state_modules_same: "(s :: state)\<lparr>modules := (modules s)(a := modules s a)\<rparr> = s"
  by simp

text \<open>
  The renaming raises nothing on a module that carries \<^verbatim>\<open>__meTalized__\<close>, and on a
  module none of whose cased names has a lowercase form that the module type keeps.
\<close>

lemma renaming_raises_nothing:
  assumes "hasattr d ''__meTalized__'' \<or>
           (\<forall>x\<in>set (dir_names d). x \<noteq> lower x \<longrightarrow> \<not> readonly_attr (lower x))"
  shows "fst (meTalize_dict d) = Inr ()"
proof (cases "hasattr d ''__meTalized__''")
  case True
  then show ?thesis by (simp add: meTalize_dict_done)
next
  case False
  with assms have "\<forall>x\<in>set (dir_names d). x \<noteq> lower x \<longrightarrow> \<not> readonly_attr (lower x)"
    by simp
  from meTalize_dict_first[OF False this] show ?thesis by auto
qed

text \<open>
  C9, as the code has it. Whatever the stack, and whatever the hook returns or raises,
  it leaves of the loaded module what the renaming alone makes of it, and touches no
  other object that exists: decoration does not change the loaded module. An import
  with an empty stack returns the loaded module itself when the renaming raises
  nothing, that is when the module carries \<^verbatim>\<open>__meTalized__\<close> or has no cased name
  whose lowercase form is \<^verbatim>\<open>__dict__\<close> or \<^verbatim>\<open>__class__\<close>. When the hook returns with a
  stack that is not empty, the module it returns is a new object, at the address that
  was free, and a name that \<^verbatim>\<open>__meTalized__\<close> does not list is bound in it as in the
  loaded module (\<^verbatim>\<open>__doc__\<close> is \<^verbatim>\<open>None\<close> when the loaded module does not bind it). A
  later import with an empty stack returns the loaded module and changes nothing: its
  functions are not wrapped.
\<close>

theorem decoration_on_a_copy:
  assumes "builtin_import args s = (Inr a, s1)" and "a < next_addr s1"
      and "meTalizing_import builtin_import call args s = (r, s')"
  shows "modules s' a = snd (meTalize_dict (modules s1 a)) \<and>
         (\<forall>x. x < next_addr s1 \<and> x \<noteq> a \<longrightarrow> modules s' x = modules s1 x) \<and>
         (meTalizers s1 = [] \<and>
          (hasattr (modules s1 a) ''__meTalized__'' \<or>
           (\<forall>x\<in>set (dir_names (modules s1 a)). x \<noteq> lower x \<longrightarrow> \<not> readonly_attr (lower x))) \<longrightarrow>
            r = Inr a \<and> next_addr s' = next_addr s1) \<and>
         (\<forall>b. meTalizers s1 \<noteq> [] \<and> r = Inr b \<longrightarrow>
            b = next_addr s1 \<and> b \<noteq> a \<and> next_addr s' = Suc (next_addr s1) \<and>
            (\<exists>names.
               (\<exists>lst. lookup (modules s' a) ''__meTalized__'' = Some lst \<and> iter_val lst = Inr names) \<and>
               (\<forall>n. VStr n \<notin> set names \<longrightarrow>
                  lookup (modules s' b) n =
                    (case lookup (modules s' a) n of
                       Some v \<Rightarrow> Some v
                     | None \<Rightarrow> if n = ''__doc__'' then Some VNone else None)))) \<and>
         (\<forall>t. builtin_import args t = (Inr a, t) \<and> meTalizers t = [] \<and>
              modules t a = modules s' a \<longrightarrow>
            meTalizing_import builtin_import call args t = (Inr a, t))"
proof -
  let ?d2 = "snd (meTalize_dict (modules s1 a))"
  from hook_frame[OF assms] have
    1: "modules s' a = ?d2" and
    2: "\<forall>x. x < next_addr s1 \<and> x \<noteq> a \<longrightarrow> modules s' x = modules s1 x"
    by auto
  have 3: "meTalizers s1 = [] \<and>
          (hasattr (modules s1 a) ''__meTalized__'' \<or>
           (\<forall>x\<in>set (dir_names (modules s1 a)). x \<noteq> lower x \<longrightarrow> \<not> readonly_attr (lower x))) \<longrightarrow>
            r = Inr a \<and> next_addr s' = next_addr s1"
  proof
    assume e: "meTalizers s1 = [] \<and>
          (hasattr (modules s1 a) ''__meTalized__'' \<or>
           (\<forall>x\<in>set (dir_names (modules s1 a)). x \<noteq> lower x \<longrightarrow> \<not> readonly_attr (lower x)))"
    then have ok: "fst (meTalize_dict (modules s1 a)) = Inr ()"
      using renaming_raises_nothing by blast
    from e have em: "meTalizers s1 = []" by simp
    from hook_empty_stack[where builtin_import = builtin_import and call = call, OF assms(1) em ok]
      assms(3)
    show "r = Inr a \<and> next_addr s' = next_addr s1" by auto
  qed
  have 4: "b = next_addr s1 \<and> b \<noteq> a \<and> next_addr s' = Suc (next_addr s1) \<and>
            (\<exists>names.
               (\<exists>lst. lookup (modules s' a) ''__meTalized__'' = Some lst \<and> iter_val lst = Inr names) \<and>
               (\<forall>n. VStr n \<notin> set names \<longrightarrow>
                  lookup (modules s' b) n =
                    (case lookup (modules s' a) n of
                       Some v \<Rightarrow> Some v
                     | None \<Rightarrow> if n = ''__doc__'' then Some VNone else None)))"
    if ne: "meTalizers s1 \<noteq> []" and rb: "r = Inr b" for b
  proof -
    have h: "meTalizing_import builtin_import call args s = (Inr b, s')"
      using assms(3) rb by simp
    from hook_decorated[OF assms(1,2) ne h] obtain lst names where
      b: "b = next_addr s1" "next_addr s' = Suc (next_addr s1)" and
      l: "lookup (modules s' a) ''__meTalized__'' = Some lst" and i: "iter_val lst = Inr names"
      by blast
    from hook_decorated_lookup[OF assms(1,2) ne h l i] l i b assms(2) show ?thesis
      by blast
  qed
  have 5: "meTalizing_import builtin_import call args t = (Inr a, t)"
    if t: "builtin_import args t = (Inr a, t)" "meTalizers t = []" "modules t a = modules s' a" for t
  proof -
    have "meTalize_dict (modules t a) = (Inr (), modules t a)"
      using t(3) 1 meTalize_dict_idem[of "modules s1 a"] by simp
    then show ?thesis
      using hook_empty_stack[where builtin_import = builtin_import and call = call, OF t(1,2)]
      by (simp add: state_modules_same)
  qed
  show ?thesis using 1 2 3 4 5 by blast
qed

text \<open>
  \<^verbatim>\<open>with meTal(decorator): import simple\<close> and then \<^verbatim>\<open>import simple\<close> outside the
  scope, as in \<^verbatim>\<open>examples/example.py\<close>: the first import returns a new module with
  \<^verbatim>\<open>decorator(hello)\<close> and the \<^verbatim>\<open>__doc__\<close> of the loaded module, the second one
  returns the loaded module, where \<^verbatim>\<open>hello\<close> is the function of the module.
\<close>

theorem decoration_on_a_copy_witness:
  "fst (meTalizing_import (cached_import [(''simple'', 0)]) sym_call ''simple''
          (one_module simple_py [(VObj ''decorator'', [], [])])) = Inr 1 \<and>
   lookup (modules (snd (meTalizing_import (cached_import [(''simple'', 0)]) sym_call ''simple''
          (one_module simple_py [(VObj ''decorator'', [], [])]))) 1) ''hello'' =
     Some (VApp (VObj ''decorator'') [VObj ''f''] []) \<and>
   lookup (modules (snd (meTalizing_import (cached_import [(''simple'', 0)]) sym_call ''simple''
          (one_module simple_py [(VObj ''decorator'', [], [])]))) 1) ''__doc__'' = Some VNone \<and>
   lookup (modules (snd (meTalizing_import (cached_import [(''simple'', 0)]) sym_call ''simple''
          (one_module simple_py [(VObj ''decorator'', [], [])]))) 0) ''hello'' = Some (VObj ''f'') \<and>
   meTalizing_import (cached_import [(''simple'', 0)]) sym_call ''simple''
     ((snd (meTalizing_import (cached_import [(''simple'', 0)]) sym_call ''simple''
          (one_module simple_py [(VObj ''decorator'', [], [])])))\<lparr>meTalizers := []\<rparr>) =
     (Inr 0, (snd (meTalizing_import (cached_import [(''simple'', 0)]) sym_call ''simple''
          (one_module simple_py [(VObj ''decorator'', [], [])])))\<lparr>meTalizers := []\<rparr>)"
proof -
  let ?s = "one_module simple_py [(VObj ''decorator'', [], [])]"
  let ?run = "meTalizing_import (cached_import [(''simple'', 0)]) sym_call ''simple'' ?s"
  let ?t = "(snd ?run)\<lparr>meTalizers := []\<rparr>"
  have h1: "cached_import [(''simple'', 0)] ''simple'' ?s = (Inr 0, ?s)"
    by (simp add: cached_import_def)
  have h2: "0 < next_addr ?s" by (simp add: one_module_def)
  have h3: "?run = (fst ?run, snd ?run)" by simp
  have a: "fst ?run = Inr 1" by (simp add: run_defs simple_py_def)
  have b: "lookup (modules (snd ?run) 1) ''hello'' = Some (VApp (VObj ''decorator'') [VObj ''f''] [])"
    by (simp add: run_defs simple_py_def)
  have b': "lookup (modules (snd ?run) 1) ''__doc__'' = Some VNone"
    by (simp add: run_defs simple_py_def)
  have c: "lookup (modules (snd ?run) 0) ''hello'' = Some (VObj ''f'')"
    by (simp add: run_defs simple_py_def)
  have t: "cached_import [(''simple'', 0)] ''simple'' ?t = (Inr 0, ?t) \<and> meTalizers ?t = [] \<and>
           modules ?t 0 = modules (snd ?run) 0"
    by (simp add: cached_import_def)
  from decoration_on_a_copy [where builtin_import = "cached_import [(''simple'', 0)]"
      and args = "''simple''" and call = sym_call, OF h1 h2 h3]
  have "\<forall>t. cached_import [(''simple'', 0)] ''simple'' t = (Inr 0, t) \<and> meTalizers t = [] \<and>
              modules t 0 = modules (snd ?run) 0 \<longrightarrow>
            meTalizing_import (cached_import [(''simple'', 0)]) sym_call ''simple'' t = (Inr 0, t)"
    by blast
  with t have "meTalizing_import (cached_import [(''simple'', 0)]) sym_call ''simple'' ?t = (Inr 0, ?t)"
    by blast
  with a b b' c show ?thesis by simp
qed

text \<open>
  Against C9 as stated: the module binds \<^verbatim>\<open>__DICT__\<close> and \<^verbatim>\<open>zED\<close>, and is imported
  with an empty stack. The hook does not return the loaded module: \<^verbatim>\<open>setattr\<close> raises
  \<^verbatim>\<open>TypeError\<close> on \<^verbatim>\<open>__dict__\<close>, after \<^verbatim>\<open>__DICT__\<close> has been popped, and the module
  is left with \<^verbatim>\<open>__meTalized__\<close> set and \<^verbatim>\<open>zED\<close> under its cased name.
\<close>

theorem plain_import_raises_counterexample:
  "meTalizers (one_module odd_py []) = [] \<and>
   cached_import [(''odd'', 0)] ''odd'' (one_module odd_py []) = (Inr 0, one_module odd_py []) \<and>
   fst (meTalizing_import (cached_import [(''odd'', 0)]) sym_call ''odd''
          (one_module odd_py [])) = Inl TypeError \<and>
   modules (snd (meTalizing_import (cached_import [(''odd'', 0)]) sym_call ''odd''
                   (one_module odd_py []))) 0 =
     [(''__name__'', VStr ''odd''), (''zED'', VObj ''g''),
      (''__meTalized__'', VList [VStr ''__dict__'', VStr ''zed''])]"
  by (simp add: run_defs odd_py_def)

section \<open>Renaming happens once\<close>

lemma import_times_module:
  assumes "\<And>t. builtin_import args t = (Inr a, t)" and "a < next_addr s"
  shows "a < next_addr (import_times builtin_import call args n s) \<and>
         modules (import_times builtin_import call args n s) a =
           (if n = 0 then modules s a else snd (meTalize_dict (modules s a)))"
  using assms(2)
proof (induction n arbitrary: s)
  case 0
  then show ?case by simp
next
  case (Suc n)
  let ?h = "meTalizing_import builtin_import call args s"
  have h: "?h = (fst ?h, snd ?h)" by simp
  from hook_frame[OF assms(1) Suc.prems h] have
    m: "modules (snd ?h) a = snd (meTalize_dict (modules s a))" and
    n: "a < next_addr (snd ?h)" using Suc.prems by auto
  from Suc.IH[OF n] m show ?case
    by (simp add: meTalize_dict_idem)
qed

text \<open>
  C4. For a module that the builtin import finds loaded: when the module carries
  \<^verbatim>\<open>__meTalized__\<close> the hook leaves its dictionary, hence its names, as they are; after
  any run of the hook the module carries \<^verbatim>\<open>__meTalized__\<close>; so after any number of runs
  of the hook, one at least, the module is what a single renaming makes of it.
\<close>

theorem renaming_once:
  assumes "\<And>t. builtin_import args t = (Inr a, t)" and "a < next_addr s"
  shows "(hasattr (modules s a) ''__meTalized__'' \<longrightarrow>
            modules (snd (meTalizing_import builtin_import call args s)) a = modules s a \<and>
            dir_names (modules (snd (meTalizing_import builtin_import call args s)) a) =
              dir_names (modules s a)) \<and>
         hasattr (modules (snd (meTalizing_import builtin_import call args s)) a) ''__meTalized__'' \<and>
         modules (import_times builtin_import call args (Suc n) s) a =
           snd (meTalize_dict (modules s a)) \<and>
         modules (import_times builtin_import call args (Suc n) s) a =
           modules (import_times builtin_import call args 1 s) a"
proof -
  let ?h = "meTalizing_import builtin_import call args s"
  have h: "?h = (fst ?h, snd ?h)" by simp
  from hook_frame[OF assms(1) assms(2) h] have
    m: "modules (snd ?h) a = snd (meTalize_dict (modules s a))" by simp
  have 1: "hasattr (modules s a) ''__meTalized__'' \<longrightarrow>
            modules (snd ?h) a = modules s a \<and>
            dir_names (modules (snd ?h) a) = dir_names (modules s a)"
    using m by (simp add: meTalize_dict_done)
  have 2: "hasattr (modules (snd ?h) a) ''__meTalized__''"
    using m by (simp add: meTalize_dict_hasattr)
  from import_times_module[where builtin_import = builtin_import and call = call, OF assms]
  have 3: "modules (import_times builtin_import call args k s) a =
           (if k = 0 then modules s a else snd (meTalize_dict (modules s a)))" for k
    by blast
  have 4: "modules (import_times builtin_import call args (Suc n) s) a = snd (meTalize_dict (modules s a))"
    using 3[of "Suc n"] by simp
  have 5: "modules (import_times builtin_import call args 1 s) a = snd (meTalize_dict (modules s a))"
    using 3[of 1] by simp
  show ?thesis using 1 2 4 5 by simp
qed

text \<open>
  Three imports of \<^verbatim>\<open>simple\<close> in a scope: the loaded module is renamed once.
\<close>

theorem renaming_once_witness:
  "modules (import_times (cached_import [(''simple'', 0)]) sym_call ''simple'' 3
      (one_module simple_py [(VObj ''decorator'', [], [])])) 0 =
     [(''__name__'', VStr ''simple''), (''__doc__'', VNone),
      (''__meTalized__'', VList [VStr ''hello'']), (''hello'', VObj ''f'')] \<and>
   modules (import_times (cached_import [(''simple'', 0)]) sym_call ''simple'' 3
      (one_module simple_py [(VObj ''decorator'', [], [])])) 0 =
   modules (import_times (cached_import [(''simple'', 0)]) sym_call ''simple'' 1
      (one_module simple_py [(VObj ''decorator'', [], [])])) 0"
proof -
  let ?s = "one_module simple_py [(VObj ''decorator'', [], [])]"
  have h1: "\<And>t. cached_import [(''simple'', 0)] ''simple'' t = (Inr 0, t)"
    by (simp add: cached_import_def)
  have h2: "0 < next_addr ?s" by (simp add: one_module_def)
  have d: "snd (meTalize_dict (modules ?s 0)) =
     [(''__name__'', VStr ''simple''), (''__doc__'', VNone),
      (''__meTalized__'', VList [VStr ''hello'']), (''hello'', VObj ''f'')]"
    by (simp add: run_defs simple_py_def)
  note t = renaming_once [where builtin_import = "cached_import [(''simple'', 0)]"
      and args = "''simple''" and call = sym_call and n = 2, OF h1 h2]
  have e: "(3::nat) = Suc 2" by simp
  from t have a: "modules (import_times (cached_import [(''simple'', 0)]) sym_call ''simple'' (Suc 2) ?s) 0 =
      snd (meTalize_dict (modules ?s 0))" by blast
  from t have b: "modules (import_times (cached_import [(''simple'', 0)]) sym_call ''simple'' (Suc 2) ?s) 0 =
      modules (import_times (cached_import [(''simple'', 0)]) sym_call ''simple'' 1 ?s) 0" by blast
  show ?thesis unfolding e using a b d by (simp only: simp_thms)
qed

section \<open>Exceptions\<close>

lemma stacked_raise_inner:
  "stacked call ys f = Inl e \<Longrightarrow> stacked call (xs @ ys) f = Inl e"
  by (simp add: stacked_append)

lemma stacked_raise_at:
  assumes "stacked call inner f = Inr g" and "decorate_with call m g = Inl e"
  shows "stacked call (outer @ m # inner) f = Inl e"
proof -
  have "stacked call (m # inner) f = Inl e" using assms by simp
  then show ?thesis by (rule stacked_raise_inner)
qed

lemma decorate_names_append:
  "decorate_names call stack (xs @ ys) d =
     (case decorate_names call stack xs d of
        (Inl e, d') \<Rightarrow> (Inl e, d')
      | (Inr _, d') \<Rightarrow> decorate_names call stack ys d')"
proof (induction xs arbitrary: d)
  case Nil
  show ?case by simp
next
  case (Cons x xs)
  show ?case
  proof (cases x)
    case (VStr m)
    then show ?thesis using Cons.IH
      by (simp split: option.splits sum.splits)
  qed simp_all
qed

text \<open>
  The loop of the decoration over distinct bound names, none kept by the module type,
  each of which the stack wraps without an exception: it raises nothing and leaves the
  other names as they are.
\<close>

lemma decorate_names_ok:
  assumes "distinct pre"
      and "\<forall>v\<in>set pre. \<exists>m f g. v = VStr m \<and> \<not> readonly_attr m \<and> lookup d m = Some f \<and>
             stacked call stack f = Inr g"
  shows "\<exists>d'. decorate_names call stack pre d = (Inr (), d') \<and>
           (\<forall>k. VStr k \<notin> set pre \<longrightarrow> lookup d' k = lookup d k)"
  using assms
proof (induction pre arbitrary: d)
  case Nil
  show ?case by simp
next
  case (Cons v pre)
  from Cons.prems(2) obtain m f g where
    v: "v = VStr m" and nr: "\<not> readonly_attr m" and f: "lookup d m = Some f" and
    g: "stacked call stack f = Inr g"
    by auto
  let ?d1 = "AList.update m g d"
  have sa: "setattr d m g = Inr ?d1" using nr by (rule setattr_ok)
  have nin: "VStr m \<notin> set pre" using Cons.prems(1) v by simp
  have "\<forall>v\<in>set pre. \<exists>m f g. v = VStr m \<and> \<not> readonly_attr m \<and> lookup ?d1 m = Some f \<and>
          stacked call stack f = Inr g"
  proof
    fix x assume x: "x \<in> set pre"
    with Cons.prems(2) obtain m' f' g' where
      m': "x = VStr m'" "\<not> readonly_attr m'" "lookup d m' = Some f'"
          "stacked call stack f' = Inr g'" by auto
    from x nin m'(1) have "m' \<noteq> m" by auto
    with m' show "\<exists>m f g. x = VStr m \<and> \<not> readonly_attr m \<and> lookup ?d1 m = Some f \<and>
                    stacked call stack f = Inr g"
      by (simp add: lookup_update)
  qed
  moreover have "distinct pre" using Cons.prems(1) by simp
  ultimately obtain d' where
    r: "decorate_names call stack pre ?d1 = (Inr (), d')" and
    fr: "\<forall>k. VStr k \<notin> set pre \<longrightarrow> lookup d' k = lookup ?d1 k"
    using Cons.IH[of ?d1] by blast
  have "decorate_names call stack (v # pre) d = (Inr (), d')"
    using v f g r nr sa by (simp add: apply_rev_stacked)
  moreover have "\<forall>k. VStr k \<notin> set (v # pre) \<longrightarrow> lookup d' k = lookup d k"
    using fr v by (simp add: lookup_update)
  ultimately show ?case by blast
qed

lemma meTalized_copy_raise:
  assumes "a \<noteq> next_addr s"
      and "lookup (modules s a) ''__name__'' = Some (VStr nm)"
      and "lookup (modules s a) ''__meTalized__'' = Some (VList (pre @ VStr n # rest))"
      and "distinct pre" and "VStr n \<notin> set pre"
      and "\<forall>v\<in>set pre. \<exists>m f g. v = VStr m \<and> \<not> readonly_attr m \<and>
             lookup (modules s a) m = Some f \<and> stacked call (meTalizers s) f = Inr g"
      and "\<not> readonly_attr n" and "lookup (modules s a) n = Some f"
      and "stacked call (meTalizers s) f = Inl e"
  shows "fst (meTalized_copy call a s) = Inl e"
proof -
  let ?d0 = "dict_update [(''__name__'', VStr nm), (''__doc__'', VNone)] (modules s a)"
  have "\<forall>v\<in>set pre. \<exists>m f g. v = VStr m \<and> \<not> readonly_attr m \<and> lookup ?d0 m = Some f \<and>
             stacked call (meTalizers s) f = Inr g"
    using assms(6) lookup_dict_update_Some by blast
  from decorate_names_ok[OF assms(4) this] obtain d1 where
    p: "decorate_names call (meTalizers s) pre ?d0 = (Inr (), d1)" and
    fr: "\<forall>k. VStr k \<notin> set pre \<longrightarrow> lookup d1 k = lookup ?d0 k" by blast
  have "lookup ?d0 n = Some f" using assms(8) by (rule lookup_dict_update_Some)
  then have "lookup d1 n = Some f" using fr assms(5) by simp
  then have "decorate_names call (meTalizers s) (VStr n # rest) d1 = (Inl e, d1)"
    using assms(7,9) by (simp add: apply_rev_stacked)
  then have dn: "decorate_names call (meTalizers s) (pre @ VStr n # rest) ?d0 = (Inl e, d1)"
    using p by (simp add: decorate_names_append)
  have g1: "getattr (modules s a) (VStr ''__name__'') = Inr (VStr nm)"
    using assms(2) by (simp only: getattr_name_lookup)
  have g2: "getattr (modules s a) (VStr ''__meTalized__'') = Inr (VList (pre @ VStr n # rest))"
    using assms(3) by (simp only: getattr_meTalized_lookup)
  show ?thesis using assms(1) g1 g2 dn
    by (simp add: meTalized_copy_def Let_def del: getattr.simps)
qed

text \<open>
  C8. Nothing is checked and nothing is caught. A scope pushes whatever it is given as
  decorator and never fails on entry. An exception of the builtin import is the result
  of the hook, with the state as the builtin import left it. An exception of the
  renaming (\<^verbatim>\<open>setattr\<close> on a name that the module type keeps) is the result of the
  hook. The first exception of the decoration is the result of the hook: the renaming
  has raised nothing, the listed names before \<open>n\<close> (distinct, other than \<open>n\<close>, not kept
  by the module type) are wrapped without an exception, and on the attribute \<open>f\<close> named
  \<open>n\<close> the elements \<open>inner\<close> of the stack give \<open>g\<close> and the next element \<open>m\<close> raises
  \<open>e\<close> on \<open>g\<close> (in \<open>decorator(*args, **kwargs)\<close> or in the call on \<open>g\<close>). An exception
  of the body of a scope is the result of the \<^verbatim>\<open>with\<close> statement (the stack having
  at least the element to pop).
\<close>

theorem exceptions_propagate:
  "meTalmanager_enter d xs kw t = (Inr (), t\<lparr>meTalizers := meTalizers t @ [(d, xs, kw)]\<rparr>) \<and>
   (builtin_import args' u = (Inl ei, u') \<longrightarrow>
      meTalizing_import builtin_import call args' u = (Inl ei, u')) \<and>
   (builtin_import argr sr = (Inr ar, sr') \<and> fst (meTalize_dict (modules sr' ar)) = Inl er \<longrightarrow>
      fst (meTalizing_import builtin_import call argr sr) = Inl er) \<and>
   (builtin_import args s = (Inr a, sa) \<and> a < next_addr sa \<and>
    meTalizers sa = outer @ m # inner \<and>
    (hasattr (modules sa a) ''__meTalized__'' \<or>
     (\<forall>x\<in>set (dir_names (modules sa a)). x \<noteq> lower x \<longrightarrow> \<not> readonly_attr (lower x))) \<and>
    lookup (snd (meTalize_dict (modules sa a))) ''__name__'' = Some (VStr nm) \<and>
    lookup (snd (meTalize_dict (modules sa a))) ''__meTalized__'' =
      Some (VList (pre @ VStr n # rest)) \<and>
    distinct pre \<and> VStr n \<notin> set pre \<and>
    (\<forall>v\<in>set pre. \<exists>k fk gk. v = VStr k \<and> \<not> readonly_attr k \<and>
        lookup (snd (meTalize_dict (modules sa a))) k = Some fk \<and>
        stacked call (meTalizers sa) fk = Inr gk) \<and>
    \<not> readonly_attr n \<and>
    lookup (snd (meTalize_dict (modules sa a))) n = Some f \<and>
    stacked call inner f = Inr g \<and> decorate_with call m g = Inl e \<longrightarrow>
      fst (meTalizing_import builtin_import call args s) = Inl e) \<and>
   (body (snd (meTalmanager_enter d xs kw t)) = (Inl eb, t') \<and> meTalizers t' \<noteq> [] \<longrightarrow>
      fst (with_meTal d xs kw body t) = Inl eb)"
proof -
  have 1: "meTalmanager_enter d xs kw t = (Inr (), t\<lparr>meTalizers := meTalizers t @ [(d, xs, kw)]\<rparr>)"
    by (simp add: meTalmanager_enter_def)
  have 2: "builtin_import args' u = (Inl ei, u') \<longrightarrow>
      meTalizing_import builtin_import call args' u = (Inl ei, u')"
    by (simp add: hook_raise)
  have rr: "builtin_import argr sr = (Inr ar, sr') \<and> fst (meTalize_dict (modules sr' ar)) = Inl er \<longrightarrow>
      fst (meTalizing_import builtin_import call argr sr) = Inl er"
    by (simp add: hook_rename_raise)
  have 3: "fst (meTalizing_import builtin_import call args s) = Inl e"
    if b: "builtin_import args s = (Inr a, sa)" and lt: "a < next_addr sa"
      and st: "meTalizers sa = outer @ m # inner"
      and rn: "hasattr (modules sa a) ''__meTalized__'' \<or>
               (\<forall>x\<in>set (dir_names (modules sa a)). x \<noteq> lower x \<longrightarrow> \<not> readonly_attr (lower x))"
      and nm: "lookup (snd (meTalize_dict (modules sa a))) ''__name__'' = Some (VStr nm)"
      and ls: "lookup (snd (meTalize_dict (modules sa a))) ''__meTalized__'' =
                 Some (VList (pre @ VStr n # rest))"
      and dp: "distinct pre" and np: "VStr n \<notin> set pre"
      and ok: "\<forall>v\<in>set pre. \<exists>k fk gk. v = VStr k \<and> \<not> readonly_attr k \<and>
                 lookup (snd (meTalize_dict (modules sa a))) k = Some fk \<and>
                 stacked call (meTalizers sa) fk = Inr gk"
      and nr: "\<not> readonly_attr n"
      and f: "lookup (snd (meTalize_dict (modules sa a))) n = Some f"
      and g: "stacked call inner f = Inr g" and r: "decorate_with call m g = Inl e"
  proof -
    let ?s2 = "snd (meTalize_names a sa)"
    have s2: "modules ?s2 a = snd (meTalize_dict (modules sa a))"
      "next_addr ?s2 = next_addr sa" "meTalizers ?s2 = meTalizers sa"
      by (simp_all add: meTalize_names_eq)
    have rok: "fst (meTalize_dict (modules sa a)) = Inr ()"
      using rn by (rule renaming_raises_nothing)
    from stacked_raise_at[OF g r] have q8: "stacked call (meTalizers ?s2) f = Inl e"
      using st s2 by simp
    have q1: "a \<noteq> next_addr ?s2" using lt s2 by simp
    have q2: "lookup (modules ?s2 a) ''__name__'' = Some (VStr nm)" using nm s2 by simp
    have q3: "lookup (modules ?s2 a) ''__meTalized__'' = Some (VList (pre @ VStr n # rest))"
      using ls s2 by simp
    have q6: "\<forall>v\<in>set pre. \<exists>m f g. v = VStr m \<and> \<not> readonly_attr m \<and>
             lookup (modules ?s2 a) m = Some f \<and> stacked call (meTalizers ?s2) f = Inr g"
      using ok s2 by simp
    have q7: "lookup (modules ?s2 a) n = Some f" using f s2 by simp
    have "fst (meTalized_copy call a ?s2) = Inl e"
      using q1 q2 q3 dp np q6 nr q7 q8 by (rule meTalized_copy_raise)
    then show ?thesis using b st rok by (simp add: hook_unfold)
  qed
  have 4: "fst (with_meTal d xs kw body t) = Inl eb"
    if "body (snd (meTalmanager_enter d xs kw t)) = (Inl eb, t')" "meTalizers t' \<noteq> []"
    using that by (simp add: with_meTal_def meTalmanager_enter_def meTalmanager_exit_def)
  show ?thesis using 1 2 rr 3 4 by blast
qed

text \<open>
  \<^verbatim>\<open>None\<close> is pushed as a decorator; the import of a module that is not there raises
  \<^verbatim>\<open>ImportError\<close> through the hook; the import of the module with \<^verbatim>\<open>__DICT__\<close> raises
  the \<^verbatim>\<open>TypeError\<close> of the renaming; in the module with \<^verbatim>\<open>Alpha\<close> and \<^verbatim>\<open>Beta\<close> the
  decorator wraps \<^verbatim>\<open>alpha\<close> and raises on \<^verbatim>\<open>beta\<close>, through the hook; the exception
  of a body comes out of its scope.
\<close>

theorem exceptions_propagate_witness:
  "meTalmanager_enter VNone [] [] (one_module simple_py []) =
     (Inr (), one_module simple_py [(VNone, [], [])]) \<and>
   meTalizing_import (cached_import [(''pair'', 0), (''odd'', 0)]) picky_call ''nosuch''
     (one_module simple_py []) = (Inl (ImportError ''nosuch''), one_module simple_py []) \<and>
   fst (meTalize_dict (modules (one_module odd_py []) 0)) = Inl TypeError \<and>
   fst (meTalizing_import (cached_import [(''pair'', 0), (''odd'', 0)]) picky_call ''odd''
     (one_module odd_py [])) = Inl TypeError \<and>
   lookup (snd (meTalize_dict (modules (one_module pair_py [(VObj ''d'', [], [])]) 0)))
     ''__meTalized__'' = Some (VList ([VStr ''alpha''] @ VStr ''beta'' # [])) \<and>
   stacked picky_call [(VObj ''d'', [], [])] (VObj ''f'') = Inr (VApp (VObj ''d'') [VObj ''f''] []) \<and>
   decorate_with picky_call (VObj ''d'', [], []) (VObj ''g'') = Inl (Raised ''picky'') \<and>
   fst (meTalizing_import (cached_import [(''pair'', 0), (''odd'', 0)]) picky_call ''pair''
     (one_module pair_py [(VObj ''d'', [], [])])) = Inl (Raised ''picky'') \<and>
   fst (with_meTal VNone [] [] raising_body (one_module simple_py [])) = Inl (Raised ''boom'')"
proof -
  let ?t = "one_module simple_py []"
  let ?t' = "one_module simple_py [(VNone, [], [])]"
  let ?s = "one_module pair_py [(VObj ''d'', [], [])]"
  let ?o = "one_module odd_py []"
  let ?bi = "cached_import [(''pair'', 0), (''odd'', 0)]"
  note w = exceptions_propagate [where d = VNone and xs = "[]" and kw = "[]" and t = ?t
      and builtin_import = ?bi and call = picky_call and args' = "''nosuch''" and u = ?t
      and u' = ?t and ei = "ImportError ''nosuch''"
      and argr = "''odd''" and sr = ?o and sr' = ?o and ar = 0 and er = TypeError
      and args = "''pair''" and s = ?s
      and sa = ?s and a = 0 and outer = "[]" and m = "(VObj ''d'', [], [])" and inner = "[]"
      and nm = "''pair''" and pre = "[VStr ''alpha'']" and n = "''beta''" and rest = "[]"
      and f = "VObj ''g''" and g = "VObj ''g''" and e = "Raised ''picky''"
      and body = raising_body and t' = ?t' and eb = "Raised ''boom''"]
  have en: "snd (meTalmanager_enter VNone [] [] ?t) = ?t'"
    by (simp add: meTalmanager_enter_def one_module_def)
  have d2: "snd (meTalize_dict (modules ?s 0)) =
     [(''__name__'', VStr ''pair''), (''__meTalized__'', VList [VStr ''alpha'', VStr ''beta'']),
      (''alpha'', VObj ''f''), (''beta'', VObj ''g'')]"
    by (simp add: run_defs pair_py_def)
  have dn: "dir_names (modules ?s 0) = [''Alpha'', ''Beta'', ''__name__'']"
    by (simp add: one_module_def pair_py_def dir_names_def)
  have st: "stacked picky_call [(VObj ''d'', [], [])] (VObj ''f'') = Inr (VApp (VObj ''d'') [VObj ''f''] [])"
    by (simp add: decorate_with_def picky_call_def)
  have dg: "decorate_with picky_call (VObj ''d'', [], []) (VObj ''g'') = Inl (Raised ''picky'')"
    by (simp add: decorate_with_def picky_call_def)
  have ms: "meTalizers ?s = [(VObj ''d'', [], [])]" by (simp add: one_module_def)
  have b: "?bi ''nosuch'' ?t = (Inl (ImportError ''nosuch''), ?t)"
    by (simp add: cached_import_def)
  have ro: "fst (meTalize_dict (modules ?o 0)) = Inl TypeError"
    by (simp add: run_defs odd_py_def)
  have br: "?bi ''odd'' ?o = (Inr 0, ?o) \<and> fst (meTalize_dict (modules ?o 0)) = Inl TypeError"
    using ro by (simp add: cached_import_def)
  have rn: "hasattr (modules ?s 0) ''__meTalized__'' \<or>
     (\<forall>x\<in>set (dir_names (modules ?s 0)). x \<noteq> lower x \<longrightarrow> \<not> readonly_attr (lower x))"
    by (simp add: dn lower_values readonly_attr_def)
  have c: "?bi ''pair'' ?s = (Inr 0, ?s) \<and> 0 < next_addr ?s \<and>
    meTalizers ?s = [] @ (VObj ''d'', [], []) # [] \<and>
    (hasattr (modules ?s 0) ''__meTalized__'' \<or>
     (\<forall>x\<in>set (dir_names (modules ?s 0)). x \<noteq> lower x \<longrightarrow> \<not> readonly_attr (lower x))) \<and>
    lookup (snd (meTalize_dict (modules ?s 0))) ''__name__'' = Some (VStr ''pair'') \<and>
    lookup (snd (meTalize_dict (modules ?s 0))) ''__meTalized__'' =
      Some (VList ([VStr ''alpha''] @ VStr ''beta'' # [])) \<and>
    distinct [VStr ''alpha''] \<and> VStr ''beta'' \<notin> set [VStr ''alpha''] \<and>
    (\<forall>v\<in>set [VStr ''alpha'']. \<exists>k fk gk. v = VStr k \<and> \<not> readonly_attr k \<and>
        lookup (snd (meTalize_dict (modules ?s 0))) k = Some fk \<and>
        stacked picky_call (meTalizers ?s) fk = Inr gk) \<and>
    \<not> readonly_attr ''beta'' \<and>
    lookup (snd (meTalize_dict (modules ?s 0))) ''beta'' = Some (VObj ''g'') \<and>
    stacked picky_call [] (VObj ''g'') = Inr (VObj ''g'') \<and>
    decorate_with picky_call (VObj ''d'', [], []) (VObj ''g'') = Inl (Raised ''picky'')"
    unfolding d2 ms using st dg rn
    by (simp add: cached_import_def one_module_def lookup_def readonly_attr_def)
  have d: "raising_body (snd (meTalmanager_enter VNone [] [] ?t)) = (Inl (Raised ''boom''), ?t') \<and>
    meTalizers ?t' \<noteq> []"
    unfolding en by (simp add: raising_body_def one_module_def)
  from w have 1: "meTalmanager_enter VNone [] [] ?t = (Inr (), ?t')"
    by (simp add: one_module_def)
  from w b have 2: "meTalizing_import ?bi picky_call ''nosuch'' ?t = (Inl (ImportError ''nosuch''), ?t)"
    by blast
  from w br have r: "fst (meTalizing_import ?bi picky_call ''odd'' ?o) = Inl TypeError"
    by blast
  from w c have 3: "fst (meTalizing_import ?bi picky_call ''pair'' ?s) = Inl (Raised ''picky'')"
    by blast
  from w d have 4: "fst (with_meTal VNone [] [] raising_body ?t) = Inl (Raised ''boom'')"
    by blast
  from c have 5: "lookup (snd (meTalize_dict (modules ?s 0))) ''__meTalized__'' =
      Some (VList ([VStr ''alpha''] @ VStr ''beta'' # []))" by blast
  show ?thesis using 1 2 r ro 3 4 5 st dg by blast
qed

end
